theory Spec2Isabelle
  imports Complex_Main "HOL-Library.Log_Nat"
begin

section \<open>Transfer of a message plan to a chat: the execution core\<close>

text \<open>
  The development follows the JavaScript sources: the job state machine of
  \<^verbatim>\<open>WhatsAppMessage\<close>, the ledger of \<^verbatim>\<open>ProgressRecord\<close>, \<^verbatim>\<open>ProgressSummary\<close> and
  \<^verbatim>\<open>ProgressTracker\<close>, the pacing state of \<^verbatim>\<open>CLIConfig\<close> and \<^verbatim>\<open>RuntimeState\<close>, the loop of
  \<^verbatim>\<open>WhatsAppImporter\<close> and the start-up of \<^verbatim>\<open>ExecuteCommand\<close>.

  Conventions. A JavaScript object is a record and a method takes the object and
  returns the updated one. \<^verbatim>\<open>Date.now()\<close> is an explicit argument \<open>now\<close>
  (milliseconds). A \<^verbatim>\<open>throw\<close> is a value \<open>Inl e\<close>; where a method has already
  assigned to its object when it throws, the updated object is returned beside the error.
  Numbers are integers; the ISO date strings of the summary are milliseconds too.
  Identifiers are strings that are taken to be well-formed UUIDs, which the plan schema
  checks when a plan is loaded. The two files of the ledger are kept in memory and writing
  them does not fail.
\<close>

subsection \<open>Errors\<close>

datatype msg_status = Pending | Processing | Sent | Failed | Skipped

datatype error_scope = JobScoped | ConnectionScoped

datatype error =
    InvalidTransition msg_status msg_status
  | MessageInvalid string
  | RecordInvalid string
  | SummaryInvalid string
  | NotInitialized
  | NotConnected
  | ChannelError error_scope string
  | TypeError string
  | Wrapped string error

fun status_name :: "msg_status \<Rightarrow> string" where
  "status_name Pending = ''pending''"
| "status_name Processing = ''processing''"
| "status_name Sent = ''sent''"
| "status_name Failed = ''failed''"
| "status_name Skipped = ''skipped''"

text \<open>The table \<^verbatim>\<open>WhatsAppMessage.statusTransitions\<close>.\<close>

definition statusTransitions :: "msg_status \<Rightarrow> msg_status list" where
  "statusTransitions s =
     (case s of
        Pending \<Rightarrow> [Processing]
      | Processing \<Rightarrow> [Sent, Failed, Skipped]
      | Sent \<Rightarrow> []
      | Failed \<Rightarrow> [Processing]
      | Skipped \<Rightarrow> [])"

text \<open>\<^verbatim>\<open>Array.prototype.join\<close> on a list of strings.\<close>

fun join :: "string \<Rightarrow> string list \<Rightarrow> string" where
  "join sep [] = []"
| "join sep [x] = x"
| "join sep (x # y # ys) = x @ sep @ join sep (y # ys)"

text \<open>\<^verbatim>\<open>error.message\<close>. The texts of the validators are carried by the error; a
  \<^verbatim>\<open>TypeError\<close> is thrown by the language itself, with its text.\<close>

fun error_message :: "error \<Rightarrow> string" where
  "error_message (InvalidTransition a b) =
     ''Invalid status transition from '' @ [CHR 0x27] @ status_name a @ [CHR 0x27]
       @ '' to '' @ [CHR 0x27] @ status_name b @ [CHR 0x27]
       @ ''. Valid transitions: '' @ join '', '' (map status_name (statusTransitions a))"
| "error_message (MessageInvalid s) = s"
| "error_message (RecordInvalid s) = s"
| "error_message (SummaryInvalid s) = s"
| "error_message NotInitialized = ''Progress tracker not initialized''"
| "error_message NotConnected = ''WhatsApp client not connected. Call connect() first.''"
| "error_message (ChannelError sc s) = s"
| "error_message (TypeError s) = s"
| "error_message (Wrapped p e) = p @ error_message e"

text \<open>JavaScript truthiness of a value that is a string, \<^verbatim>\<open>null\<close> or \<^verbatim>\<open>undefined\<close>.\<close>

definition truthy :: "string option \<Rightarrow> bool" where
  "truthy s = (case s of None \<Rightarrow> False | Some t \<Rightarrow> t \<noteq> [])"

text \<open>\<^verbatim>\<open>x || null\<close> on such a value.\<close>

definition or_null :: "string option \<Rightarrow> string option" where
  "or_null s = (if truthy s then s else None)"

subsection \<open>The job: \<^verbatim>\<open>WhatsAppMessage\<close>\<close>

text \<open>
  The fields the state machine and the executor read or write. The kind of a job, its
  content and its media reference are not part of the model: a job is taken to have a
  supported kind and media that exists, so the outcome of a send is the answer of the
  channel.
\<close>

record whatsapp_message =
  msgId :: string
  telegramId :: int
  timestamp :: int
  chatId :: string
  status :: msg_status
  errorMessage :: "string option"
  sentAt :: "int option"

definition canTransitionTo :: "whatsapp_message \<Rightarrow> msg_status \<Rightarrow> bool" where
  "canTransitionTo m newStatus = (newStatus \<in> set (statusTransitions (status m)))"

text \<open>\<^verbatim>\<open>validate\<close>: the schema on the fields above, then \<^verbatim>\<open>_validateBusinessRules\<close>.\<close>

definition message_validate :: "int \<Rightarrow> whatsapp_message \<Rightarrow> error + unit" where
  "message_validate now m =
     (if timestamp m < 0 \<or> chatId m = [] \<or> (case sentAt m of None \<Rightarrow> False | Some t \<Rightarrow> t < 0)
        then Inl (MessageInvalid ''WhatsAppMessage validation failed'')
      else if timestamp m > now
        then Inl (MessageInvalid ''Message timestamp cannot be in the future'')
      else if (case sentAt m of None \<Rightarrow> False | Some t \<Rightarrow> t \<noteq> 0 \<and> t < timestamp m)
        then Inl (MessageInvalid ''sentAt cannot be before original timestamp'')
      else Inr ())"

record transition =
  t_from :: msg_status
  t_to :: msg_status
  t_timestamp :: int

text \<open>\<^verbatim>\<open>updateStatus\<close> checks the transition before it assigns anything, and validates the
  object after the assignments.\<close>

definition updateStatus ::
  "int \<Rightarrow> whatsapp_message \<Rightarrow> msg_status \<Rightarrow> string option \<Rightarrow> whatsapp_message \<times> (error + transition)" where
  "updateStatus now m newStatus err =
     (if \<not> canTransitionTo m newStatus then (m, Inl (InvalidTransition (status m) newStatus))
      else
        let m1 = m\<lparr>status := newStatus\<rparr>;
            m2 = (if newStatus = Failed \<and> truthy err then m1\<lparr>errorMessage := err\<rparr>
                  else if newStatus \<noteq> Failed then m1\<lparr>errorMessage := None\<rparr>
                  else m1);
            m3 = (if newStatus = Sent then m2\<lparr>sentAt := Some now\<rparr> else m2)
        in case message_validate now m3 of
             Inl e \<Rightarrow> (m3, Inl e)
           | Inr u \<Rightarrow> (m3, Inr \<lparr>t_from = status m, t_to = newStatus, t_timestamp = now\<rparr>))"

definition markAsProcessing :: "int \<Rightarrow> whatsapp_message \<Rightarrow> whatsapp_message \<times> (error + transition)" where
  "markAsProcessing now m = updateStatus now m Processing None"

definition markAsSent :: "int \<Rightarrow> whatsapp_message \<Rightarrow> whatsapp_message \<times> (error + transition)" where
  "markAsSent now m = updateStatus now m Sent None"

definition markAsFailed ::
  "int \<Rightarrow> whatsapp_message \<Rightarrow> string option \<Rightarrow> whatsapp_message \<times> (error + transition)" where
  "markAsFailed now m err = updateStatus now m Failed err"

definition markAsSkipped :: "int \<Rightarrow> whatsapp_message \<Rightarrow> whatsapp_message \<times> (error + transition)" where
  "markAsSkipped now m = updateStatus now m Skipped None"

definition isTerminal :: "whatsapp_message \<Rightarrow> bool" where
  "isTerminal m = (status m = Sent \<or> status m = Skipped)"

subsection \<open>The ledger entry: \<^verbatim>\<open>ProgressRecord\<close>\<close>

record progress_record =
  messageId :: string
  r_telegramId :: int
  r_status :: msg_status
  r_timestamp :: int
  r_errorMessage :: "string option"
  retryCount :: int
  sentMessageId :: "string option"

text \<open>\<^verbatim>\<open>ProgressRecord.validate\<close>: the schema (status one of sent and failed, a timestamp
  that is not negative, a retry count from 0 to 10), then \<^verbatim>\<open>_validateBusinessRules\<close>.\<close>

definition record_validate :: "int \<Rightarrow> progress_record \<Rightarrow> error + unit" where
  "record_validate now r =
     (if (r_status r \<noteq> Sent \<and> r_status r \<noteq> Failed) \<or> r_timestamp r < 0
          \<or> retryCount r < 0 \<or> retryCount r > 10
        then Inl (RecordInvalid ''ProgressRecord validation failed'')
      else if r_status r = Failed \<and> \<not> truthy (r_errorMessage r)
        then Inl (RecordInvalid ''Failed status requires an error message'')
      else if r_status r = Sent \<and> truthy (r_errorMessage r)
        then Inl (RecordInvalid ''Sent status should not have an error message'')
      else if r_timestamp r > now + 60000
        then Inl (RecordInvalid ''Timestamp cannot be in the future'')
      else if retryCount r < 0
        then Inl (RecordInvalid ''Retry count cannot be negative'')
      else if retryCount r > 10
        then Inl (RecordInvalid ''Retry count cannot exceed 10'')
      else Inr ())"

definition record_fromData :: "int \<Rightarrow> progress_record \<Rightarrow> error + progress_record" where
  "record_fromData now r = (case record_validate now r of Inl e \<Rightarrow> Inl e | Inr u \<Rightarrow> Inr r)"

text \<open>\<^verbatim>\<open>ProgressRecord.create\<close>.\<close>

definition record_create ::
  "int \<Rightarrow> string \<Rightarrow> int \<Rightarrow> msg_status \<Rightarrow> string option \<Rightarrow> string option \<Rightarrow> error + progress_record" where
  "record_create now mid tid st err sid =
     record_fromData now
       \<lparr>messageId = mid, r_telegramId = tid, r_status = st, r_timestamp = now,
        r_errorMessage = err, retryCount = (if st = Failed then 1 else 0),
        sentMessageId = sid\<rparr>"

definition canRetry :: "progress_record \<Rightarrow> bool" where
  "canRetry r = (r_status r = Failed \<and> retryCount r < 10)"

subsection \<open>The summary: \<^verbatim>\<open>ProgressSummary\<close>\<close>

datatype run_status = Running | Completed | RunFailed | Paused

record progress_summary =
  planPath :: string
  startedAt :: int
  lastUpdated :: int
  totalMessages :: int
  processedMessages :: int
  successfulMessages :: int
  failedMessages :: int
  currentPosition :: int
  s_status :: run_status

text \<open>\<^verbatim>\<open>ProgressSummary.validate\<close>: the schema (no count is negative), then
  \<^verbatim>\<open>_validateBusinessRules\<close>.\<close>

definition summary_validate :: "progress_summary \<Rightarrow> error + unit" where
  "summary_validate s =
     (if totalMessages s < 0 \<or> processedMessages s < 0 \<or> successfulMessages s < 0
          \<or> failedMessages s < 0 \<or> currentPosition s < 0
        then Inl (SummaryInvalid ''ProgressSummary validation failed'')
      else if processedMessages s \<noteq> successfulMessages s + failedMessages s
        then Inl (SummaryInvalid ''Processed messages must equal successful + failed'')
      else if processedMessages s > totalMessages s
        then Inl (SummaryInvalid ''Processed messages cannot exceed total messages'')
      else if currentPosition s < 0 \<or> currentPosition s > totalMessages s
        then Inl (SummaryInvalid ''Current position must be between 0 and total messages'')
      else if lastUpdated s < startedAt s
        then Inl (SummaryInvalid ''Last updated cannot be before started at'')
      else if s_status s = Completed \<and> currentPosition s \<noteq> totalMessages s
        then Inl (SummaryInvalid
          ''Completed status requires current position to equal total messages'')
      else if s_status s = Completed \<and> processedMessages s \<noteq> totalMessages s
        then Inl (SummaryInvalid ''Completed status requires all messages to be processed'')
      else Inr ())"

definition summary_fromData :: "progress_summary \<Rightarrow> error + progress_summary" where
  "summary_fromData s = (case summary_validate s of Inl e \<Rightarrow> Inl e | Inr u \<Rightarrow> Inr s)"

text \<open>\<^verbatim>\<open>ProgressSummary.create\<close>.\<close>

definition summary_create :: "int \<Rightarrow> string \<Rightarrow> int \<Rightarrow> error + progress_summary" where
  "summary_create now path n =
     summary_fromData
       \<lparr>planPath = path, startedAt = now, lastUpdated = now, totalMessages = n,
        processedMessages = 0, successfulMessages = 0, failedMessages = 0,
        currentPosition = 0, s_status = Running\<rparr>"

text \<open>\<^verbatim>\<open>updateFromRecord\<close>.\<close>

definition updateFromRecord :: "int \<Rightarrow> progress_summary \<Rightarrow> progress_record \<Rightarrow> progress_summary" where
  "updateFromRecord now s r =
     (let s1 = s\<lparr>lastUpdated := now\<rparr>;
          s2 = (if r_status r = Sent then s1\<lparr>successfulMessages := successfulMessages s1 + 1\<rparr>
                else if r_status r = Failed then s1\<lparr>failedMessages := failedMessages s1 + 1\<rparr>
                else s1);
          s3 = s2\<lparr>processedMessages := successfulMessages s2 + failedMessages s2\<rparr>
      in if processedMessages s3 \<ge> totalMessages s3
           then s3\<lparr>s_status := Completed, currentPosition := totalMessages s3\<rparr>
         else if failedMessages s3 > 0 \<and> successfulMessages s3 = 0
           then s3\<lparr>s_status := RunFailed\<rparr>
         else s3)"

definition summary_pause :: "int \<Rightarrow> progress_summary \<Rightarrow> progress_summary" where
  "summary_pause now s =
     (if s_status s = Running then s\<lparr>s_status := Paused, lastUpdated := now\<rparr> else s)"

definition summary_resume :: "int \<Rightarrow> progress_summary \<Rightarrow> progress_summary" where
  "summary_resume now s =
     (if s_status s = Paused then s\<lparr>s_status := Running, lastUpdated := now\<rparr> else s)"

text \<open>
  The two percentages. A JavaScript number is an IEEE 754 double. \<open>fl x\<close> is the double
  nearest to the rational \<open>x\<close>, a tie going to the even significand of 53 bits; it is
  that for every \<open>x\<close> in the range of the normal doubles, where the quotient of two
  counters below \<open>2 ^ 53\<close> and its product with 100 lie unless they are 0. A division
  by zero does not throw, it yields a value that is not a finite number; \<open>js_div\<close> returns
  \<open>None\<close> for it. \<^verbatim>\<open>Math.round\<close> rounds half up.
\<close>

definition round_half_even :: "rat \<Rightarrow> int" where
  "round_half_even x =
     (let f = \<lfloor>x\<rfloor>; d = x - of_int f
      in if d < 1 / 2 then f else if 1 / 2 < d then f + 1 else if even f then f else f + 1)"

definition pow2 :: "int \<Rightarrow> rat" where
  "pow2 e = (if 0 \<le> e then 2 ^ nat e else 1 / 2 ^ nat (- e))"

text \<open>For \<open>x > 0\<close>, the \<open>e\<close> with \<open>2 ^ e \<le> x < 2 ^ (e + 1)\<close>, found from the lengths in
  bits of the numerator and the denominator.\<close>

definition binary_exponent :: "rat \<Rightarrow> int" where
  "binary_exponent x =
     (let k = bitlen (fst (quotient_of x)) - bitlen (snd (quotient_of x))
      in if pow2 k \<le> x then k else k - 1)"

definition fl :: "rat \<Rightarrow> rat" where
  "fl x =
     (if x = 0 then 0
      else let s = binary_exponent \<bar>x\<bar> - 52
           in of_int (round_half_even (x / pow2 s)) * pow2 s)"

definition js_div :: "int \<Rightarrow> int \<Rightarrow> rat option" where
  "js_div a b = (if b = 0 then None else Some (fl (of_int a / of_int b)))"

definition Math_round :: "rat \<Rightarrow> int" where
  "Math_round x = \<lfloor>x + 1 / 2\<rfloor>"

definition getCompletionPercentage :: "progress_summary \<Rightarrow> int option" where
  "getCompletionPercentage s =
     (if totalMessages s = 0 then Some 100
      else map_option (\<lambda>q. Math_round (fl (q * 100)))
             (js_div (processedMessages s) (totalMessages s)))"

definition getSuccessRate :: "progress_summary \<Rightarrow> int option" where
  "getSuccessRate s =
     (if processedMessages s = 0 then Some 100
      else map_option (\<lambda>q. Math_round (fl (q * 100)))
             (js_div (successfulMessages s) (processedMessages s)))"

subsection \<open>The ledger: \<^verbatim>\<open>ProgressTracker\<close>\<close>

text \<open>
  \<open>progressFile\<close> and \<open>progressLog\<close> hold the contents of \<^verbatim>\<open>progress.json\<close> and of
  \<^verbatim>\<open>progress.jsonl\<close>; a missing log is the empty list. \<open>progressRecords\<close> is the
  \<^verbatim>\<open>Map\<close> from a job identifier to its latest entry.
\<close>

record disk =
  progressFile :: "progress_summary option"
  progressLog :: "progress_record list"

record tracker =
  progressSummary :: progress_summary
  progressRecords :: "string \<rightharpoonup> progress_record"
  isInitialized :: bool
  files :: disk

definition saveProgressSummary :: "tracker \<Rightarrow> tracker" where
  "saveProgressSummary t = t\<lparr>files := (files t)\<lparr>progressFile := Some (progressSummary t)\<rparr>\<rparr>"

text \<open>\<^verbatim>\<open>_loadProgressRecords\<close>: every line of the log is validated and stored under its
  job identifier, a later line replacing an earlier one.\<close>

fun loadProgressRecords ::
  "int \<Rightarrow> progress_record list \<Rightarrow> (string \<rightharpoonup> progress_record) \<Rightarrow> error + (string \<rightharpoonup> progress_record)" where
  "loadProgressRecords now [] recs = Inr recs"
| "loadProgressRecords now (r # rs) recs =
     (case record_fromData now r of
        Inl e \<Rightarrow> Inl (Wrapped ''Failed to load progress records: '' e)
      | Inr r' \<Rightarrow> loadProgressRecords now rs (recs(messageId r' \<mapsto> r')))"

text \<open>\<^verbatim>\<open>initialize\<close>, after the constructor: the summary is loaded from \<^verbatim>\<open>progress.json\<close>
  when that file exists, and created and saved otherwise; then the log is replayed. When it
  throws, the files are returned beside the error, since a new summary may have been saved.\<close>

definition initialize :: "int \<Rightarrow> string \<Rightarrow> disk \<Rightarrow> int \<Rightarrow> (error \<times> disk) + tracker" where
  "initialize now path d n =
     (case (case progressFile d of
              Some data \<Rightarrow>
                (case summary_fromData data of
                   Inl e \<Rightarrow> Inl (Wrapped ''Failed to load existing progress: '' e)
                 | Inr s \<Rightarrow> Inr (s, d))
            | None \<Rightarrow>
                (case summary_create now path n of
                   Inl e \<Rightarrow> Inl e
                 | Inr s \<Rightarrow> Inr (s, d\<lparr>progressFile := Some s\<rparr>))) of
        Inl e \<Rightarrow> Inl (Wrapped ''Failed to initialize progress tracking: '' e, d)
      | Inr (s, d') \<Rightarrow>
          (case loadProgressRecords now (progressLog d') Map.empty of
             Inl e \<Rightarrow> Inl (Wrapped ''Failed to initialize progress tracking: '' e, d')
           | Inr recs \<Rightarrow>
               Inr \<lparr>progressSummary = s, progressRecords = recs, isInitialized = True,
                    files = d'\<rparr>))"

text \<open>\<^verbatim>\<open>recordProgress\<close>: the entry is validated; then it is stored, appended to the log,
  counted in the summary, and the summary is saved.\<close>

definition recordProgress :: "int \<Rightarrow> tracker \<Rightarrow> progress_record \<Rightarrow> error + tracker" where
  "recordProgress now t r =
     (if \<not> isInitialized t then Inl NotInitialized
      else case record_validate now r of
        Inl e \<Rightarrow> Inl (Wrapped ''Failed to record progress: '' e)
      | Inr u \<Rightarrow>
          Inr (saveProgressSummary
                 (t\<lparr>progressRecords := (progressRecords t)(messageId r \<mapsto> r),
                    files := (files t)\<lparr>progressLog := progressLog (files t) @ [r]\<rparr>,
                    progressSummary := updateFromRecord now (progressSummary t) r\<rparr>)))"

definition isMessageSuccessful :: "tracker \<Rightarrow> string \<Rightarrow> bool" where
  "isMessageSuccessful t mid =
     (case progressRecords t mid of None \<Rightarrow> False | Some r \<Rightarrow> r_status r = Sent)"

definition isMessageFailed :: "tracker \<Rightarrow> string \<Rightarrow> bool" where
  "isMessageFailed t mid =
     (case progressRecords t mid of None \<Rightarrow> False | Some r \<Rightarrow> r_status r = Failed)"

text \<open>A sequence of \<^verbatim>\<open>recordProgress\<close> calls, each at its own time. A call that throws
  leaves the tracker as it was, and the next call is made all the same.\<close>

fun recordSequence :: "tracker \<Rightarrow> (int \<times> progress_record) list \<Rightarrow> tracker" where
  "recordSequence t [] = t"
| "recordSequence t (c # cs) =
     (case recordProgress (fst c) t (snd c) of
        Inl e \<Rightarrow> recordSequence t cs
      | Inr t' \<Rightarrow> recordSequence t' cs)"

text \<open>\<^verbatim>\<open>updateProgress({ status })\<close>, the form the executor calls: no position is given.\<close>

definition updateProgress :: "int \<Rightarrow> tracker \<Rightarrow> run_status \<Rightarrow> error + tracker" where
  "updateProgress now t st =
     (if \<not> isInitialized t then Inl NotInitialized
      else
        let s1 = (if st = Paused then summary_pause now (progressSummary t)
                  else if st = Running then summary_resume now (progressSummary t)
                  else (progressSummary t)\<lparr>s_status := st\<rparr>)
        in Inr (saveProgressSummary (t\<lparr>progressSummary := s1\<lparr>lastUpdated := now\<rparr>\<rparr>)))"

subsection \<open>Pacing: \<^verbatim>\<open>CLIConfig\<close> and \<^verbatim>\<open>RuntimeState\<close>\<close>

record cli_config =
  sleepMin :: int
  sleepMax :: int
  maxRetries :: int

definition createDefault :: cli_config where
  "createDefault = \<lparr>sleepMin = 3, sleepMax = 10, maxRetries = 3\<rparr>"

text \<open>\<^verbatim>\<open>getRandomSleepDuration\<close>, in seconds; \<open>u\<close> is the value \<^verbatim>\<open>Math.random()\<close> returns,
  a number from 0 up to but not including 1.\<close>

definition getRandomSleepDuration :: "cli_config \<Rightarrow> rat \<Rightarrow> int" where
  "getRandomSleepDuration cfg u = \<lfloor>u * of_int (sleepMax cfg - sleepMin cfg + 1)\<rfloor> + sleepMin cfg"

text \<open>The \<^verbatim>\<open>rateLimiter\<close> of \<^verbatim>\<open>RuntimeState\<close>.\<close>

record runtime_state =
  lastMessageTime :: int
  messageCount :: int
  dailyLimit :: int

definition newRuntimeState :: runtime_state where
  "newRuntimeState = \<lparr>lastMessageTime = 0, messageCount = 0, dailyLimit = 1000\<rparr>"

definition updateRateLimit :: "int \<Rightarrow> runtime_state \<Rightarrow> runtime_state" where
  "updateRateLimit now rs = rs\<lparr>lastMessageTime := now, messageCount := messageCount rs + 1\<rparr>"

definition canSendMessage :: "int \<Rightarrow> cli_config \<Rightarrow> runtime_state \<Rightarrow> bool" where
  "canSendMessage now cfg rs =
     (if now - lastMessageTime rs < sleepMin cfg * 1000 then False
      else if messageCount rs \<ge> dailyLimit rs then False
      else True)"

definition getRequiredWaitTime :: "int \<Rightarrow> cli_config \<Rightarrow> runtime_state \<Rightarrow> int" where
  "getRequiredWaitTime now cfg rs = max 0 (sleepMin cfg * 1000 - (now - lastMessageTime rs))"

subsection \<open>The executor: \<^verbatim>\<open>WhatsAppImporter\<close>\<close>

text \<open>
  What the surroundings contribute to one iteration of the loop: the random number drawn
  for the delay, the answer of the channel to the send, and the time the send takes.
  \<open>Delivered w\<close> carries the identifier the channel assigned; \<open>Rejected sc s\<close> is an
  error thrown by the send with message \<open>s\<close>, which the channel scopes to the job or to
  the connection.
\<close>

datatype send_outcome = Delivered string | Rejected error_scope string

record env_step =
  rnd :: rat
  outcome :: send_outcome
  sendTime :: nat

record import_options =
  dryRun :: bool
  resume :: bool

record single_result =
  success :: bool
  sr_error :: "string option"
  whatsappMessageId :: "string option"

datatype result_status = RRunning | RPaused | RCompleted | RCompletedWithErrors

record import_result =
  res_status :: result_status
  res_total :: int
  res_processed :: int
  res_successful :: int
  res_failed :: int
  res_skipped :: int
  res_errors :: "(string \<times> string option) list"

text \<open>The importer, with the clock it reads. \<open>isPaused\<close> does not change while the
  loop runs: a pause requested during a run is outside the model.\<close>

record importer =
  config :: cli_config
  runtimeState :: runtime_state
  isConnected :: bool
  isPaused :: bool
  progressTracker :: "tracker option"
  clock :: int

text \<open>\<^verbatim>\<open>_sleep\<close>: a timer with a negative delay fires at once.\<close>

definition sleep :: "int \<Rightarrow> importer \<Rightarrow> importer" where
  "sleep ms imp = imp\<lparr>clock := clock imp + max 0 ms\<rparr>"

definition waitForRateLimit :: "rat \<Rightarrow> importer \<Rightarrow> importer" where
  "waitForRateLimit u imp =
     (let waitTime = getRequiredWaitTime (clock imp) (config imp) (runtimeState imp);
          imp1 = (if waitTime > 0 then sleep waitTime imp else imp);
          randomDelay = getRandomSleepDuration (config imp) u * 1000
      in sleep randomDelay imp1)"

text \<open>The \<^verbatim>\<open>catch\<close> of \<^verbatim>\<open>_processSingleMessage\<close>.\<close>

definition singleMessageFailed ::
  "importer \<Rightarrow> whatsapp_message \<Rightarrow> error \<Rightarrow> importer \<times> whatsapp_message \<times> (error + single_result)" where
  "singleMessageFailed imp m e =
     (case markAsFailed (clock imp) m (Some (error_message e)) of
        (m', Inl e') \<Rightarrow> (imp, m', Inl e')
      | (m', Inr tr) \<Rightarrow>
          (imp, m', Inr \<lparr>success = False, sr_error = Some (error_message e),
                         whatsappMessageId = None\<rparr>))"

text \<open>\<^verbatim>\<open>_processSingleMessage\<close>. The five send operations are the one answer of the
  channel; every error of the \<^verbatim>\<open>try\<close> block, whatever its scope, reaches the same
  \<^verbatim>\<open>catch\<close>.\<close>

definition processSingleMessage ::
  "import_options \<Rightarrow> env_step \<Rightarrow> importer \<Rightarrow> whatsapp_message
     \<Rightarrow> importer \<times> whatsapp_message \<times> (error + single_result)" where
  "processSingleMessage opts env imp m =
     (if dryRun opts
        then (imp, m, Inr \<lparr>success = True, sr_error = None, whatsappMessageId = None\<rparr>)
      else case markAsProcessing (clock imp) m of
        (m1, Inl e) \<Rightarrow> singleMessageFailed imp m1 e
      | (m1, Inr tr) \<Rightarrow>
          let imp2 = imp\<lparr>clock := clock imp + int (sendTime env)\<rparr> in
          (case outcome env of
             Rejected sc s \<Rightarrow> singleMessageFailed imp2 m1 (ChannelError sc s)
           | Delivered w \<Rightarrow>
               (case markAsSent (clock imp2) m1 of
                  (m2, Inl e) \<Rightarrow> singleMessageFailed imp2 m2 e
                | (m2, Inr tr2) \<Rightarrow>
                    (imp2, m2, Inr \<lparr>success = True, sr_error = None,
                                    whatsappMessageId = Some w\<rparr>))))"

text \<open>The block \<^verbatim>\<open>if (this.progressTracker) { ProgressRecord.create(...); recordProgress(...) }\<close>,
  which the loop has in its \<^verbatim>\<open>try\<close> and in its \<^verbatim>\<open>catch\<close>.\<close>

definition recordOutcome ::
  "importer \<Rightarrow> whatsapp_message \<Rightarrow> msg_status \<Rightarrow> string option \<Rightarrow> string option \<Rightarrow> error + importer" where
  "recordOutcome imp m st err sid =
     (case progressTracker imp of
        None \<Rightarrow> Inr imp
      | Some t \<Rightarrow>
          (case record_create (clock imp) (msgId m) (telegramId m) st err sid of
             Inl e \<Rightarrow> Inl e
           | Inr r \<Rightarrow>
               (case recordProgress (clock imp) t r of
                  Inl e \<Rightarrow> Inl e
                | Inr t' \<Rightarrow> Inr (imp\<lparr>progressTracker := Some t'\<rparr>))))"

text \<open>The \<^verbatim>\<open>try\<close> block of one iteration of \<^verbatim>\<open>_processMessages\<close>. When it throws, the
  importer and the counters are returned as they are at the throw. No result of
  \<^verbatim>\<open>_processSingleMessage\<close> has a field \<^verbatim>\<open>skipped\<close>, so that branch is never taken.\<close>

definition tryMessage ::
  "import_options \<Rightarrow> env_step \<Rightarrow> importer \<Rightarrow> import_result \<Rightarrow> whatsapp_message
     \<Rightarrow> importer \<times> import_result \<times> whatsapp_message \<times> error option" where
  "tryMessage opts env imp res m =
     (let imp1 = waitForRateLimit (rnd env) imp in
      case processSingleMessage opts env imp1 m of
        (imp2, m', Inl e) \<Rightarrow> (imp2, res, m', Some e)
      | (imp2, m', Inr mr) \<Rightarrow>
          let res1 = res\<lparr>res_processed := res_processed res + 1\<rparr>;
              res2 = (if success mr then res1\<lparr>res_successful := res_successful res1 + 1\<rparr>
                      else res1\<lparr>res_failed := res_failed res1 + 1,
                                res_errors := res_errors res1 @ [(msgId m', sr_error mr)]\<rparr>)
          in (case recordOutcome imp2 m' (if success mr then Sent else Failed)
                     (or_null (sr_error mr)) (or_null (whatsappMessageId mr)) of
                Inl e \<Rightarrow> (imp2, res2, m', Some e)
              | Inr imp3 \<Rightarrow>
                  ((if success mr
                      then imp3\<lparr>runtimeState := updateRateLimit (clock imp3) (runtimeState imp3)\<rparr>
                    else imp3), res2, m', None)))"

text \<open>One iteration: the \<^verbatim>\<open>try\<close> block and, when it throws, the \<^verbatim>\<open>catch\<close> block, whose
  own \<^verbatim>\<open>recordProgress\<close> may throw out of the loop. The progress event the iteration
  emits has no effect on the run.\<close>

definition processOne ::
  "import_options \<Rightarrow> env_step \<Rightarrow> importer \<Rightarrow> import_result \<Rightarrow> whatsapp_message
     \<Rightarrow> importer \<times> whatsapp_message \<times> (error + import_result)" where
  "processOne opts env imp res m =
     (case tryMessage opts env imp res m of
        (imp', res', m', None) \<Rightarrow> (imp', m', Inr res')
      | (imp', res', m', Some e) \<Rightarrow>
          let resf = res'\<lparr>res_failed := res_failed res' + 1,
                          res_processed := res_processed res' + 1,
                          res_errors := res_errors res' @ [(msgId m', Some (error_message e))]\<rparr>
          in (case recordOutcome imp' m' Failed (Some (error_message e)) None of
                Inl e' \<Rightarrow> (imp', m', Inl e')
              | Inr imp'' \<Rightarrow> (imp'', m', Inr resf)))"

text \<open>The \<^verbatim>\<open>for\<close> loop of \<^verbatim>\<open>_processMessages\<close>; \<open>i\<close> is its index.\<close>

fun processLoop ::
  "import_options \<Rightarrow> (nat \<Rightarrow> env_step) \<Rightarrow> nat \<Rightarrow> whatsapp_message list \<Rightarrow> importer \<Rightarrow> import_result
     \<Rightarrow> importer \<times> whatsapp_message list \<times> (error + import_result)" where
  "processLoop opts env i [] imp res = (imp, [], Inr res)"
| "processLoop opts env i (m # ms) imp res =
     (if isPaused imp then (imp, m # ms, Inr (res\<lparr>res_status := RPaused\<rparr>))
      else case processOne opts (env i) imp res m of
        (imp', m', Inl e) \<Rightarrow> (imp', m' # ms, Inl e)
      | (imp', m', Inr res') \<Rightarrow>
          (case processLoop opts env (Suc i) ms imp' res' of
             (imp'', ms', r) \<Rightarrow> (imp'', m' # ms', r)))"

definition processMessages ::
  "import_options \<Rightarrow> (nat \<Rightarrow> env_step) \<Rightarrow> whatsapp_message list \<Rightarrow> importer
     \<Rightarrow> importer \<times> whatsapp_message list \<times> (error + import_result)" where
  "processMessages opts env msgs imp =
     (case processLoop opts env 0 msgs imp
             \<lparr>res_status = RRunning, res_total = int (length msgs), res_processed = 0,
              res_successful = 0, res_failed = 0, res_skipped = 0, res_errors = []\<rparr> of
        (imp', ms', Inl e) \<Rightarrow> (imp', ms', Inl e)
      | (imp', ms', Inr res) \<Rightarrow>
          (imp', ms',
           Inr (if res_processed res = res_total res
                  then res\<lparr>res_status :=
                         (if res_failed res = 0 then RCompleted else RCompletedWithErrors)\<rparr>
                else res)))"

text \<open>The plan is its list of jobs. \<^verbatim>\<open>ImportPlan.getUnprocessedMessages\<close> and
  \<^verbatim>\<open>getFailedMessages\<close>:\<close>

definition getUnprocessedMessages :: "whatsapp_message list \<Rightarrow> whatsapp_message list" where
  "getUnprocessedMessages plan = filter (\<lambda>m. status m = Pending) plan"

definition getFailedMessages :: "whatsapp_message list \<Rightarrow> whatsapp_message list" where
  "getFailedMessages plan = filter (\<lambda>m. status m = Failed) plan"

definition getMessagesToProcess :: "whatsapp_message list \<Rightarrow> import_options \<Rightarrow> whatsapp_message list" where
  "getMessagesToProcess plan opts =
     (if resume opts then getUnprocessedMessages plan
      else map (\<lambda>m. if status m \<noteq> Pending
                       then m\<lparr>status := Pending, errorMessage := None, sentAt := None\<rparr>
                     else m) plan)"

text \<open>\<^verbatim>\<open>executeImport\<close>, with the tracker already stored in the importer.\<close>

definition executeImport ::
  "import_options \<Rightarrow> (nat \<Rightarrow> env_step) \<Rightarrow> whatsapp_message list \<Rightarrow> importer
     \<Rightarrow> importer \<times> (error + import_result)" where
  "executeImport opts env plan imp =
     (if \<not> isConnected imp \<and> \<not> dryRun opts then (imp, Inl NotConnected)
      else
        let messagesToProcess = getMessagesToProcess plan opts in
        if messagesToProcess = []
          then (imp, Inr \<lparr>res_status = RCompleted, res_total = 0, res_processed = 0,
                          res_successful = 0, res_failed = 0, res_skipped = 0,
                          res_errors = []\<rparr>)
        else case processMessages opts env messagesToProcess imp of
          (imp', ms', Inr res) \<Rightarrow> (imp', Inr res)
        | (imp', ms', Inl e) \<Rightarrow>
            (case progressTracker imp' of
               None \<Rightarrow> (imp', Inl e)
             | Some t \<Rightarrow>
                 (case updateProgress (clock imp') t RunFailed of
                    Inl e' \<Rightarrow> (imp', Inl e')
                  | Inr t' \<Rightarrow> (imp'\<lparr>progressTracker := Some t'\<rparr>, Inl e))))"

subsection \<open>Start-up: \<^verbatim>\<open>ExecuteCommand\<close>\<close>

text \<open>The methods of the command are modelled on a plan whose jobs are \<^verbatim>\<open>WhatsAppMessage\<close>
  objects, which the calls they make on a job require. \<^verbatim>\<open>ImportPlan.fromData\<close> keeps the
  jobs of the file as plain objects, on which \<^verbatim>\<open>markAsProcessing\<close> is not a function:
  reading the plan from its file is not part of the model, and no statement below is about
  a run of the command on such a plan.\<close>

text \<open>\<^verbatim>\<open>_syncPlanWithProgress\<close>: the status of each job is rebuilt from the ledger through
  the state machine. A transition that throws ends the start-up.\<close>

definition syncMessage :: "int \<Rightarrow> tracker \<Rightarrow> whatsapp_message \<Rightarrow> error + whatsapp_message" where
  "syncMessage now t m =
     (if isMessageSuccessful t (msgId m) then
        (case markAsProcessing now m of
           (m1, Inl e) \<Rightarrow> Inl e
         | (m1, Inr tr) \<Rightarrow>
             (case markAsSent now m1 of (m2, Inl e) \<Rightarrow> Inl e | (m2, Inr tr2) \<Rightarrow> Inr m2))
      else if isMessageFailed t (msgId m) then
        (case markAsProcessing now m of
           (m1, Inl e) \<Rightarrow> Inl e
         | (m1, Inr tr) \<Rightarrow>
             (case markAsFailed now m1 (Some ''Previous attempt failed'') of
                (m2, Inl e) \<Rightarrow> Inl e
              | (m2, Inr tr2) \<Rightarrow> Inr m2))
      else Inr m)"

fun syncPlanWithProgress :: "int \<Rightarrow> tracker \<Rightarrow> whatsapp_message list \<Rightarrow> error + whatsapp_message list" where
  "syncPlanWithProgress now t [] = Inr []"
| "syncPlanWithProgress now t (m # ms) =
     (case syncMessage now t m of
        Inl e \<Rightarrow> Inl e
      | Inr m' \<Rightarrow>
          (case syncPlanWithProgress now t ms of
             Inl e \<Rightarrow> Inl e
           | Inr ms' \<Rightarrow> Inr (m' # ms')))"

text \<open>\<^verbatim>\<open>_initializeProgressTracking\<close>: \<^verbatim>\<open>ProgressTracker.load\<close> and the synchronisation when
  \<^verbatim>\<open>progress.json\<close> exists, \<^verbatim>\<open>ProgressTracker.create\<close> otherwise.\<close>

definition initializeProgressTracking ::
  "int \<Rightarrow> string \<Rightarrow> disk \<Rightarrow> whatsapp_message list \<Rightarrow> (error \<times> disk) + (tracker \<times> whatsapp_message list)" where
  "initializeProgressTracking now path d plan =
     (case progressFile d of
        Some data \<Rightarrow>
          (case initialize now path d 0 of
             Inl (e, d') \<Rightarrow> Inl (Wrapped ''Failed to initialize progress tracking: '' e, d')
           | Inr t \<Rightarrow>
               (case syncPlanWithProgress now t plan of
                  Inl e \<Rightarrow> Inl (Wrapped ''Failed to initialize progress tracking: '' e, files t)
                | Inr plan' \<Rightarrow> Inr (t, plan')))
      | None \<Rightarrow>
          (case initialize now path d (int (length plan)) of
             Inl (e, d') \<Rightarrow> Inl (Wrapped ''Failed to initialize progress tracking: '' e, d')
           | Inr t \<Rightarrow> Inr (t, plan)))"

record cli_options =
  o_dryRun :: bool
  o_resume :: bool
  targetChat :: string

text \<open>The constructor of the importer, at the time \<open>now\<close> of the clock: not connected, not
  paused, without a tracker.\<close>

definition newImporter :: "cli_config \<Rightarrow> int \<Rightarrow> importer" where
  "newImporter cfg now =
     \<lparr>config = cfg, runtimeState = newRuntimeState, isConnected = False, isPaused = False,
      progressTracker = None, clock = now\<rparr>"

text \<open>\<^verbatim>\<open>ExecuteCommand._executeImport\<close>, with the tracker and the importer of the command. The
  run resumes when \<^verbatim>\<open>--resume\<close> is given or the summary of the tracker counts a processed
  job; \<^verbatim>\<open>getProgressSummary\<close> answers \<^verbatim>\<open>null\<close> for a tracker that is not initialised, and
  reading its counter throws. The target chat is written into every job and the importer is
  called, which refuses to run when it is not connected and the run is not a dry run, and
  stores the tracker otherwise. An error is wrapped and thrown on.\<close>

definition cmd_executeImport ::
  "cli_options \<Rightarrow> (nat \<Rightarrow> env_step) \<Rightarrow> tracker option \<Rightarrow> importer \<Rightarrow> whatsapp_message list
     \<Rightarrow> importer \<times> (error + import_result)" where
  "cmd_executeImport options env tr imp plan =
     (case (if o_resume options then Inr True
            else case tr of
              None \<Rightarrow> Inr False
            | Some t \<Rightarrow>
                if isInitialized t then Inr (processedMessages (progressSummary t) > 0)
                else Inl (TypeError (''Cannot read properties of null (reading '' @ [CHR 0x27]
                                      @ ''processedMessages'' @ [CHR 0x27] @ '')''))) of
        Inl e \<Rightarrow> (imp, Inl (Wrapped ''Import execution failed: '' e))
      | Inr shouldResume \<Rightarrow>
          let importOptions = \<lparr>dryRun = o_dryRun options, resume = shouldResume\<rparr>;
              plan2 = map (\<lambda>m. m\<lparr>chatId := targetChat options\<rparr>) plan
          in if \<not> isConnected imp \<and> \<not> dryRun importOptions
               then (imp, Inl (Wrapped ''Import execution failed: '' NotConnected))
             else case executeImport importOptions env plan2 (imp\<lparr>progressTracker := tr\<rparr>) of
               (imp', Inl e) \<Rightarrow> (imp', Inl (Wrapped ''Import execution failed: '' e))
             | (imp', Inr res) \<Rightarrow> (imp', Inr res))"

section \<open>Notions used to state the properties\<close>

text \<open>The number of entries of a log with a given status.\<close>

definition countStatus :: "msg_status \<Rightarrow> progress_record list \<Rightarrow> int" where
  "countStatus st lg = int (length (filter (\<lambda>r. r_status r = st) lg))"

text \<open>The files before any run: no summary, no log.\<close>

definition emptyDisk :: disk where
  "emptyDisk = \<lparr>progressFile = None, progressLog = []\<rparr>"

text \<open>The log the importer writes to; without a tracker nothing is written.\<close>

definition ledger :: "importer \<Rightarrow> progress_record list" where
  "ledger imp = (case progressTracker imp of None \<Rightarrow> [] | Some t \<Rightarrow> progressLog (files t))"

text \<open>\<open>spaced_from d c ts\<close>: the first time of \<open>ts\<close> is at least \<open>d\<close> after \<open>c\<close>, and every
  later one at least \<open>d\<close> after the one before it.\<close>

fun spaced_from :: "int \<Rightarrow> int \<Rightarrow> int list \<Rightarrow> bool" where
  "spaced_from d c [] = True"
| "spaced_from d c (x # xs) = (c + d \<le> x \<and> spaced_from d x xs)"

text \<open>\<open>paced cfg env i c l new\<close>: the entries \<open>new\<close> are written at the pace the
  attempts \<open>i\<close>, \<open>i + 1\<close>, ... keep when the first starts at time \<open>c\<close> with the last
  successful send at time \<open>l\<close>. Before an attempt the controller waits
  \<open>max 0 (min * 1000 - (c - l))\<close> and then the random delay of the attempt; the entry is
  written when the attempt returns, which is no later than the duration of the send after
  the wait; the next attempt starts at that time, and \<open>l\<close> moves to it when the entry is
  \<open>sent\<close> and stays otherwise.\<close>

fun paced :: "cli_config \<Rightarrow> (nat \<Rightarrow> env_step) \<Rightarrow> nat \<Rightarrow> int \<Rightarrow> int \<Rightarrow> progress_record list \<Rightarrow> bool" where
  "paced cfg env i c l [] = True"
| "paced cfg env i c l (r # rs) =
     (c + max 0 (sleepMin cfg * 1000 - (c - l))
        + getRandomSleepDuration cfg (rnd (env i)) * 1000 \<le> r_timestamp r
      \<and> r_timestamp r \<le> c + max 0 (sleepMin cfg * 1000 - (c - l))
           + getRandomSleepDuration cfg (rnd (env i)) * 1000 + int (sendTime (env i))
      \<and> paced cfg env (Suc i) (r_timestamp r) (if r_status r = Sent then r_timestamp r else l) rs)"

text \<open>The time of the latest \<open>sent\<close> entry of a log, \<open>l\<close> when it has none.\<close>

fun lastSend :: "int \<Rightarrow> progress_record list \<Rightarrow> int" where
  "lastSend l [] = l"
| "lastSend l (r # rs) = lastSend (if r_status r = Sent then r_timestamp r else l) rs"

text \<open>The latest entry of a log for a job, as the replay of the log finds it.\<close>

fun latestEntry :: "progress_record list \<Rightarrow> string \<Rightarrow> progress_record option" where
  "latestEntry [] mid = None"
| "latestEntry (r # rs) mid =
     (case latestEntry rs mid of
        Some r' \<Rightarrow> Some r'
      | None \<Rightarrow> (if messageId r = mid then Some r else None))"

definition latestSent :: "progress_record list \<Rightarrow> string \<Rightarrow> bool" where
  "latestSent lg mid = (case latestEntry lg mid of None \<Rightarrow> False | Some r \<Rightarrow> r_status r = Sent)"

text \<open>\<open>entry_for m c rec\<close>: \<open>rec\<close> is an entry for the job \<open>m\<close> written at time \<open>c\<close> by
  \<^verbatim>\<open>ProgressRecord.create\<close>.\<close>

definition entry_for :: "whatsapp_message \<Rightarrow> int \<Rightarrow> progress_record \<Rightarrow> bool" where
  "entry_for m c rec =
     (messageId rec = msgId m \<and> r_telegramId rec = telegramId m \<and> r_timestamp rec = c
      \<and> retryCount rec = (if r_status rec = Failed then 1 else 0)
      \<and> (r_status rec = Sent \<or> r_status rec = Failed))"

text \<open>\<open>appended imp imp' new\<close>: from \<open>imp\<close> to \<open>imp'\<close> the entries \<open>new\<close> were recorded, each
  at the time it carries, and nothing else of the importer changed but its clock and its
  pacing state.\<close>

definition appended :: "importer \<Rightarrow> importer \<Rightarrow> progress_record list \<Rightarrow> bool" where
  "appended imp imp' new =
     (ledger imp' = ledger imp @ new \<and> config imp' = config imp \<and> isPaused imp' = isPaused imp
      \<and> isConnected imp' = isConnected imp
      \<and> progressTracker imp'
          = map_option (\<lambda>t. recordSequence t (map (\<lambda>r. (r_timestamp r, r)) new))
              (progressTracker imp))"

text \<open>The importer has a tracker and the tracker is initialised.\<close>

definition tracking :: "importer \<Rightarrow> bool" where
  "tracking imp = (case progressTracker imp of None \<Rightarrow> False | Some t \<Rightarrow> isInitialized t)"

text \<open>The attempt of the job \<open>m\<close> in one iteration succeeds: \<^verbatim>\<open>_processSingleMessage\<close>,
  called after the wait, returns a result whose \<^verbatim>\<open>success\<close> is true.\<close>

definition attempt_succeeds :: "import_options \<Rightarrow> env_step \<Rightarrow> importer \<Rightarrow> whatsapp_message \<Rightarrow> bool" where
  "attempt_succeeds opts env imp m =
     (case processSingleMessage opts env (waitForRateLimit (rnd env) imp) m of
        (imp2, m2, Inl e) \<Rightarrow> False
      | (imp2, m2, Inr mr) \<Rightarrow> success mr)"

text \<open>A job as the plan generator writes it, seen at time \<open>now\<close>: pending, never sent,
  addressed to a chat, with a timestamp that is neither negative nor in the future.\<close>

definition sendable :: "int \<Rightarrow> whatsapp_message \<Rightarrow> bool" where
  "sendable now m =
     (status m = Pending \<and> sentAt m = None \<and> chatId m \<noteq> [] \<and> 0 \<le> timestamp m
      \<and> timestamp m \<le> now)"

section \<open>Inputs of the examples\<close>

definition job_sent :: whatsapp_message where
  "job_sent = \<lparr>msgId = ''a1'', telegramId = 1, timestamp = 1000, chatId = ''chat@c.us'',
     status = Sent, errorMessage = None, sentAt = Some 2000\<rparr>"

definition entry_failed :: "int \<Rightarrow> string \<Rightarrow> progress_record" where
  "entry_failed now mid = \<lparr>messageId = mid, r_telegramId = 1, r_status = Failed, r_timestamp = now,
     r_errorMessage = Some ''Chat not found'', retryCount = 1, sentMessageId = None\<rparr>"

definition entry_sent :: "int \<Rightarrow> string \<Rightarrow> progress_record" where
  "entry_sent now mid = \<lparr>messageId = mid, r_telegramId = 1, r_status = Sent, r_timestamp = now,
     r_errorMessage = None, retryCount = 0, sentMessageId = Some ''wa1''\<rparr>"

text \<open>The tracker of a new run over a plan of one job, started at time 1000.\<close>

definition tracker_one :: tracker where
  "tracker_one =
     \<lparr>progressSummary =
        \<lparr>planPath = ''plan'', startedAt = 1000, lastUpdated = 1000, totalMessages = 1,
         processedMessages = 0, successfulMessages = 0, failedMessages = 0,
         currentPosition = 0, s_status = Running\<rparr>,
      progressRecords = Map.empty, isInitialized = True,
      files =
        \<lparr>progressFile =
           Some \<lparr>planPath = ''plan'', startedAt = 1000, lastUpdated = 1000, totalMessages = 1,
                 processedMessages = 0, successfulMessages = 0, failedMessages = 0,
                 currentPosition = 0, s_status = Running\<rparr>,
         progressLog = []\<rparr>\<rparr>"

text \<open>A pending job as the plan generator writes it.\<close>

definition job :: "string \<Rightarrow> int \<Rightarrow> whatsapp_message" where
  "job mid k = \<lparr>msgId = mid, telegramId = k, timestamp = 1000 + k, chatId = ''plan@c.us'',
     status = Pending, errorMessage = None, sentAt = None\<rparr>"

definition plan_two :: "whatsapp_message list" where
  "plan_two = [job ''a1'' 1, job ''a2'' 2]"

definition plan_five :: "whatsapp_message list" where
  "plan_five = [job ''j1'' 1, job ''j2'' 2, job ''j3'' 3, job ''j4'' 4, job ''j5'' 5]"

text \<open>A plan of 1001 jobs with distinct identifiers.\<close>

definition plan_big :: "whatsapp_message list" where
  "plan_big = map (\<lambda>k. job (replicate (Suc k) (CHR ''x'')) (int k)) [0..<1001]"

text \<open>A channel that delivers every job, and one that has lost its connection when the
  first job is sent and delivers the later ones.\<close>

definition delivering :: "nat \<Rightarrow> env_step" where
  "delivering k = \<lparr>rnd = 0, outcome = Delivered ''wa'', sendTime = 5\<rparr>"

definition connection_lost_first :: "nat \<Rightarrow> env_step" where
  "connection_lost_first k =
     (if k = 0 then \<lparr>rnd = 0, outcome = Rejected ConnectionScoped ''Session closed'', sendTime = 5\<rparr>
      else \<lparr>rnd = 0, outcome = Delivered ''wa'', sendTime = 5\<rparr>)"

definition cli_plain :: cli_options where
  "cli_plain = \<lparr>o_dryRun = False, o_resume = False, targetChat = ''chat@c.us''\<rparr>"

definition cli_resume :: cli_options where
  "cli_resume = \<lparr>o_dryRun = False, o_resume = True, targetChat = ''chat@c.us''\<rparr>"

text \<open>The files after a crash between the append of the first entry and the save of the
  summary: the log has the entry, the summary still counts no job.\<close>

definition disk_crash :: disk where
  "disk_crash =
     \<lparr>progressFile =
        Some \<lparr>planPath = ''plan'', startedAt = 5000, lastUpdated = 5000, totalMessages = 2,
              processedMessages = 0, successfulMessages = 0, failedMessages = 0,
              currentPosition = 0, s_status = Running\<rparr>,
      progressLog = [entry_sent 8000 ''a1'']\<rparr>"

text \<open>The same files with the summary saved after the first entry.\<close>

definition disk_one_sent :: disk where
  "disk_one_sent =
     \<lparr>progressFile =
        Some \<lparr>planPath = ''plan'', startedAt = 5000, lastUpdated = 8000, totalMessages = 2,
              processedMessages = 1, successfulMessages = 1, failedMessages = 0,
              currentPosition = 0, s_status = Running\<rparr>,
      progressLog = [entry_sent 8000 ''a1'']\<rparr>"

text \<open>The files of an interrupted run over five jobs: the first two sent, the third
  failed.\<close>

definition disk_five :: disk where
  "disk_five =
     \<lparr>progressFile =
        Some \<lparr>planPath = ''plan'', startedAt = 5000, lastUpdated = 30000, totalMessages = 5,
              processedMessages = 3, successfulMessages = 2, failedMessages = 1,
              currentPosition = 0, s_status = Running\<rparr>,
      progressLog = [entry_sent 10000 ''j1'', entry_sent 20000 ''j2'', entry_failed 30000 ''j3'']\<rparr>"

text \<open>The tracker of a new run over \<open>n\<close> jobs started at time 1000, and a connected
  importer with that tracker at time 5000.\<close>

definition tracker_new :: "int \<Rightarrow> tracker" where
  "tracker_new n =
     \<lparr>progressSummary =
        \<lparr>planPath = ''plan'', startedAt = 1000, lastUpdated = 1000, totalMessages = n,
         processedMessages = 0, successfulMessages = 0, failedMessages = 0,
         currentPosition = 0, s_status = Running\<rparr>,
      progressRecords = Map.empty, isInitialized = True,
      files =
        \<lparr>progressFile =
           Some \<lparr>planPath = ''plan'', startedAt = 1000, lastUpdated = 1000, totalMessages = n,
                 processedMessages = 0, successfulMessages = 0, failedMessages = 0,
                 currentPosition = 0, s_status = Running\<rparr>,
         progressLog = []\<rparr>\<rparr>"

definition importer_new :: "int \<Rightarrow> importer" where
  "importer_new n =
     \<lparr>config = createDefault, runtimeState = newRuntimeState, isConnected = True,
      isPaused = False, progressTracker = Some (tracker_new n), clock = 5000\<rparr>"

text \<open>A new importer with the default configuration at time 60000, after \<^verbatim>\<open>connect\<close> has
  succeeded.\<close>

definition importer_connected :: importer where
  "importer_connected = (newImporter createDefault 60000)\<lparr>isConnected := True\<rparr>"

definition opts_real :: import_options where
  "opts_real = \<lparr>dryRun = False, resume = False\<rparr>"

text \<open>The definitions a concrete run unfolds to.\<close>

lemmas run_defs = cmd_executeImport_def initializeProgressTracking_def initialize_def summary_fromData_def
  summary_validate_def summary_create_def record_fromData_def record_validate_def truthy_def
  or_null_def syncMessage_def markAsProcessing_def markAsSent_def markAsFailed_def
  updateStatus_def canTransitionTo_def statusTransitions_def message_validate_def
  isMessageSuccessful_def isMessageFailed_def executeImport_def getMessagesToProcess_def
  getUnprocessedMessages_def processMessages_def processOne_def tryMessage_def
  processSingleMessage_def singleMessageFailed_def recordOutcome_def record_create_def
  recordProgress_def saveProgressSummary_def updateFromRecord_def waitForRateLimit_def sleep_def
  getRequiredWaitTime_def getRandomSleepDuration_def updateRateLimit_def newRuntimeState_def
  createDefault_def updateProgress_def Let_def

section \<open>The job state machine\<close>

lemma terminal_no_transition: "isTerminal m \<Longrightarrow> \<not> canTransitionTo m s"
  by (auto simp: isTerminal_def canTransitionTo_def statusTransitions_def)

text \<open>
  C7. Once a job is \<open>sent\<close> or \<open>skipped\<close>, every call of \<^verbatim>\<open>updateStatus\<close>, whatever the
  target status and error message, and each of \<^verbatim>\<open>markAsProcessing\<close>, \<^verbatim>\<open>markAsSent\<close>,
  \<^verbatim>\<open>markAsFailed\<close> and \<^verbatim>\<open>markAsSkipped\<close> throws the invalid-transition error and leaves
  the job as it was, its status included.
\<close>

theorem terminal_state_immutable:
  "isTerminal m \<Longrightarrow>
     updateStatus now m newStatus err = (m, Inl (InvalidTransition (status m) newStatus))
   \<and> markAsProcessing now m = (m, Inl (InvalidTransition (status m) Processing))
   \<and> markAsSent now m = (m, Inl (InvalidTransition (status m) Sent))
   \<and> markAsFailed now m err = (m, Inl (InvalidTransition (status m) Failed))
   \<and> markAsSkipped now m = (m, Inl (InvalidTransition (status m) Skipped))"
  by (simp add: terminal_no_transition updateStatus_def markAsProcessing_def
      markAsSent_def markAsFailed_def markAsSkipped_def)

theorem terminal_state_immutable_witness:
  "isTerminal job_sent
   \<and> updateStatus 3000 job_sent Processing None
       = (job_sent, Inl (InvalidTransition Sent Processing))
   \<and> markAsFailed 3000 job_sent (Some ''late'')
       = (job_sent, Inl (InvalidTransition Sent Failed))"
  using terminal_state_immutable [of job_sent 3000 Processing None]
    terminal_state_immutable [of job_sent 3000 Processing "Some ''late''"]
  by (simp add: isTerminal_def job_sent_def)

section \<open>The percentages of the summary\<close>

text \<open>
  C10. \<^verbatim>\<open>getSuccessRate\<close> returns 100 when no job has been processed and
  \<^verbatim>\<open>getCompletionPercentage\<close> returns 100 when the plan has no job; for every summary both
  return a number, since neither divides by zero.
\<close>

theorem zero_denominator_reporting:
  "(processedMessages s = 0 \<longrightarrow> getSuccessRate s = Some 100)
   \<and> (totalMessages s = 0 \<longrightarrow> getCompletionPercentage s = Some 100)
   \<and> (\<exists>v. getSuccessRate s = Some v) \<and> (\<exists>v. getCompletionPercentage s = Some v)"
  by (simp add: getSuccessRate_def getCompletionPercentage_def js_div_def)

theorem zero_denominator_reporting_witness:
  "processedMessages (progressSummary tracker_one) = 0
   \<and> getSuccessRate (progressSummary tracker_one) = Some 100
   \<and> totalMessages ((progressSummary tracker_one)\<lparr>totalMessages := 0\<rparr>) = 0
   \<and> getCompletionPercentage ((progressSummary tracker_one)\<lparr>totalMessages := 0\<rparr>) = Some 100"
  using zero_denominator_reporting [of "progressSummary tracker_one"]
    zero_denominator_reporting [of "(progressSummary tracker_one)\<lparr>totalMessages := 0\<rparr>"]
  by (simp add: tracker_one_def)

text \<open>Away from the zero denominators the percentage is the rounding of the double, not
  of the exact quotient: 29 of 200 is 14 and 23 of 40 is 57, where the exact quotients
  14.5 and 57.5 would round to 15 and 58.\<close>

lemma percentages_round_the_double:
  "getSuccessRate ((progressSummary tracker_one)\<lparr>processedMessages := 200,
       successfulMessages := 29\<rparr>) = Some 14
   \<and> getCompletionPercentage ((progressSummary tracker_one)\<lparr>processedMessages := 23,
       totalMessages := 40\<rparr>) = Some 57"
  by code_simp

section \<open>The summary counts the log\<close>

lemma recordProgress_Inr:
  "recordProgress now t r = Inr t' \<Longrightarrow>
     t' = t\<lparr>progressRecords := (progressRecords t)(messageId r \<mapsto> r),
            files := \<lparr>progressFile = Some (updateFromRecord now (progressSummary t) r),
                      progressLog = progressLog (files t) @ [r]\<rparr>,
            progressSummary := updateFromRecord now (progressSummary t) r\<rparr>
     \<and> isInitialized t \<and> record_validate now r = Inr ()"
  by (auto simp: recordProgress_def saveProgressSummary_def split: if_splits sum.splits)

lemma record_validate_status:
  "record_validate now r = Inr () \<Longrightarrow> r_status r = Sent \<or> r_status r = Failed"
  by (auto simp: record_validate_def split: if_splits)

lemma updateFromRecord_counts:
  "successfulMessages (updateFromRecord now s r)
     = successfulMessages s + (if r_status r = Sent then 1 else 0)"
  "failedMessages (updateFromRecord now s r)
     = failedMessages s + (if r_status r = Sent then 0 else if r_status r = Failed then 1 else 0)"
  "processedMessages (updateFromRecord now s r)
     = successfulMessages (updateFromRecord now s r) + failedMessages (updateFromRecord now s r)"
  "totalMessages (updateFromRecord now s r) = totalMessages s"
  by (auto simp: updateFromRecord_def Let_def)

lemma initialize_emptyDisk:
  "initialize now path emptyDisk n = Inr t0 \<Longrightarrow>
     t0 = \<lparr>progressSummary =
             \<lparr>planPath = path, startedAt = now, lastUpdated = now, totalMessages = n,
              processedMessages = 0, successfulMessages = 0, failedMessages = 0,
              currentPosition = 0, s_status = Running\<rparr>,
           progressRecords = Map.empty, isInitialized = True,
           files =
             \<lparr>progressFile =
                Some \<lparr>planPath = path, startedAt = now, lastUpdated = now, totalMessages = n,
                      processedMessages = 0, successfulMessages = 0, failedMessages = 0,
                      currentPosition = 0, s_status = Running\<rparr>,
              progressLog = []\<rparr>\<rparr>
     \<and> 0 \<le> n"
  by (auto simp: initialize_def emptyDisk_def summary_create_def summary_fromData_def
      summary_validate_def split: sum.splits if_splits)

lemma tracker_one_fresh: "initialize 1000 ''plan'' emptyDisk 1 = Inr tracker_one"
  by (simp add: initialize_def emptyDisk_def summary_create_def summary_fromData_def
      summary_validate_def tracker_one_def)

text \<open>The invariant of the ledger: the counters of the summary count the entries of the
  log, and the saved summary is the current one.\<close>

lemma ledger_counted_step:
  assumes "successfulMessages (progressSummary t) = countStatus Sent (progressLog (files t))"
    and "failedMessages (progressSummary t) = countStatus Failed (progressLog (files t))"
    and "recordProgress now t r = Inr t'"
  shows "successfulMessages (progressSummary t') = countStatus Sent (progressLog (files t'))
       \<and> failedMessages (progressSummary t') = countStatus Failed (progressLog (files t'))
       \<and> processedMessages (progressSummary t')
           = successfulMessages (progressSummary t') + failedMessages (progressSummary t')
       \<and> progressFile (files t') = Some (progressSummary t')"
proof -
  from recordProgress_Inr [OF assms(3)]
  have t': "t' = t\<lparr>progressRecords := (progressRecords t)(messageId r \<mapsto> r),
            files := \<lparr>progressFile = Some (updateFromRecord now (progressSummary t) r),
                      progressLog = progressLog (files t) @ [r]\<rparr>,
            progressSummary := updateFromRecord now (progressSummary t) r\<rparr>"
    and v: "record_validate now r = Inr ()" by simp_all
  from record_validate_status [OF v] assms(1,2) show ?thesis
    unfolding t' by (auto simp: updateFromRecord_counts countStatus_def)
qed

lemma ledger_counted_recordSequence:
  assumes "successfulMessages (progressSummary t) = countStatus Sent (progressLog (files t))"
    and "failedMessages (progressSummary t) = countStatus Failed (progressLog (files t))"
    and "processedMessages (progressSummary t)
           = successfulMessages (progressSummary t) + failedMessages (progressSummary t)"
    and "progressFile (files t) = Some (progressSummary t)"
  shows "successfulMessages (progressSummary (recordSequence t calls))
           = countStatus Sent (progressLog (files (recordSequence t calls)))
       \<and> failedMessages (progressSummary (recordSequence t calls))
           = countStatus Failed (progressLog (files (recordSequence t calls)))
       \<and> processedMessages (progressSummary (recordSequence t calls))
           = successfulMessages (progressSummary (recordSequence t calls))
             + failedMessages (progressSummary (recordSequence t calls))
       \<and> progressFile (files (recordSequence t calls))
           = Some (progressSummary (recordSequence t calls))"
  using assms
proof (induction calls arbitrary: t)
  case Nil
  then show ?case by simp
next
  case (Cons c cs)
  show ?case
  proof (cases "recordProgress (fst c) t (snd c)")
    case (Inl e)
    with Cons.IH [OF Cons.prems] show ?thesis by simp
  next
    case (Inr t')
    from ledger_counted_step [OF Cons.prems(1,2) Inr] Cons.IH [of t'] Inr
    show ?thesis by simp
  qed
qed

text \<open>
  C5. After any sequence of \<^verbatim>\<open>recordProgress\<close> calls on the tracker of a new run, the
  processed count of the summary is the sum of its successful and failed counts. Every
  entry that was recorded has status \<open>sent\<close> or \<open>failed\<close> and was counted in exactly
  one of the two: the successful count is the number of \<open>sent\<close> entries of the log, the
  failed count the number of \<open>failed\<close> ones, and the processed count their sum, the length
  of the log. The saved summary is the current one.
\<close>

theorem status_reconciliation:
  assumes "initialize now path emptyDisk n = Inr t0"
  shows "processedMessages (progressSummary (recordSequence t0 calls))
           = successfulMessages (progressSummary (recordSequence t0 calls))
             + failedMessages (progressSummary (recordSequence t0 calls))
         \<and> successfulMessages (progressSummary (recordSequence t0 calls))
             = countStatus Sent (progressLog (files (recordSequence t0 calls)))
         \<and> failedMessages (progressSummary (recordSequence t0 calls))
             = countStatus Failed (progressLog (files (recordSequence t0 calls)))
         \<and> progressFile (files (recordSequence t0 calls))
             = Some (progressSummary (recordSequence t0 calls))"
proof -
  from initialize_emptyDisk [OF assms]
  have "successfulMessages (progressSummary t0) = countStatus Sent (progressLog (files t0))"
    and "failedMessages (progressSummary t0) = countStatus Failed (progressLog (files t0))"
    and "processedMessages (progressSummary t0)
           = successfulMessages (progressSummary t0) + failedMessages (progressSummary t0)"
    and "progressFile (files t0) = Some (progressSummary t0)"
    by (simp_all add: countStatus_def)
  from ledger_counted_recordSequence [OF this, of calls] show ?thesis by simp
qed

theorem status_reconciliation_witness:
  "initialize 1000 ''plan'' emptyDisk 1 = Inr tracker_one
   \<and> processedMessages (progressSummary (recordSequence tracker_one
        [(2000, entry_failed 2000 ''a1''), (3000, entry_sent 3000 ''a1'')])) = 2
   \<and> successfulMessages (progressSummary (recordSequence tracker_one
        [(2000, entry_failed 2000 ''a1''), (3000, entry_sent 3000 ''a1'')])) = 1
   \<and> failedMessages (progressSummary (recordSequence tracker_one
        [(2000, entry_failed 2000 ''a1''), (3000, entry_sent 3000 ''a1'')])) = 1"
  using status_reconciliation [OF tracker_one_fresh,
      of "[(2000, entry_failed 2000 ''a1''), (3000, entry_sent 3000 ''a1'')]"]
  apply (simp add: tracker_one_fresh)
  apply (simp add: countStatus_def tracker_one_def recordProgress_def record_validate_def
      truthy_def entry_failed_def entry_sent_def saveProgressSummary_def updateFromRecord_def
      Let_def)
  done

text \<open>
  C6. The processed count is not bounded by the total. On the tracker of a new run over
  a plan of one job, a failed entry and then a sent entry for that job leave the summary
  with two processed jobs of one and the status \<open>completed\<close>; the validation that
  \<^verbatim>\<open>ProgressSummary.fromData\<close> applies when the summary is loaded again rejects it.
\<close>

theorem processed_count_exceeds_total:
  "initialize 1000 ''plan'' emptyDisk 1 = Inr tracker_one
   \<and> progressSummary (recordSequence tracker_one
        [(2000, entry_failed 2000 ''a1''), (3000, entry_sent 3000 ''a1'')])
      = \<lparr>planPath = ''plan'', startedAt = 1000, lastUpdated = 3000, totalMessages = 1,
         processedMessages = 2, successfulMessages = 1, failedMessages = 1,
         currentPosition = 1, s_status = Completed\<rparr>
   \<and> summary_validate (progressSummary (recordSequence tracker_one
        [(2000, entry_failed 2000 ''a1''), (3000, entry_sent 3000 ''a1'')]))
      = Inl (SummaryInvalid ''Processed messages cannot exceed total messages'')"
  apply (simp add: tracker_one_fresh)
  apply (simp add: tracker_one_def recordProgress_def record_validate_def truthy_def
      entry_failed_def entry_sent_def saveProgressSummary_def updateFromRecord_def Let_def
      summary_validate_def)
  done

section \<open>One iteration of the loop\<close>

lemma error_message_InvalidTransition [simp]: "error_message (InvalidTransition a b) \<noteq> []"
  by simp

lemma updateStatus_frame:
  assumes "updateStatus now m s e = (m', r)"
  shows "msgId m' = msgId m \<and> telegramId m' = telegramId m
         \<and> (\<forall>x. r = Inl x \<longrightarrow> error_message x \<noteq> [])"
  using assms
  by (auto simp: updateStatus_def Let_def message_validate_def split: if_splits sum.splits option.splits)

lemma singleMessageFailed_effect:
  assumes "singleMessageFailed imp m e = (imp', m', sr)"
  shows "imp' = imp \<and> msgId m' = msgId m \<and> telegramId m' = telegramId m
         \<and> (\<forall>x. sr = Inl x \<longrightarrow> error_message x \<noteq> [])
         \<and> (\<forall>mr. sr = Inr mr \<longrightarrow> \<not> success mr \<and> sr_error mr = Some (error_message e)
               \<and> whatsappMessageId mr = None)"
proof (cases "markAsFailed (clock imp) m (Some (error_message e))")
  case (Pair m1 r1)
  from updateStatus_frame [OF Pair [unfolded markAsFailed_def]] Pair assms
  show ?thesis
    by (cases r1) (auto simp: singleMessageFailed_def)
qed

lemma processSingleMessage_effect:
  assumes "processSingleMessage opts env imp m = (imp2, m', sr)"
  shows "(\<exists>c. imp2 = imp\<lparr>clock := c\<rparr> \<and> clock imp \<le> c)
         \<and> msgId m' = msgId m \<and> telegramId m' = telegramId m
         \<and> (\<forall>x. sr = Inl x \<longrightarrow> error_message x \<noteq> [])
         \<and> (\<forall>mr. sr = Inr mr \<longrightarrow>
               (success mr \<longrightarrow> sr_error mr = None)
             \<and> (dryRun opts \<longrightarrow> success mr)
             \<and> (\<not> dryRun opts \<longrightarrow> (\<exists>sc s. outcome env = Rejected sc s) \<longrightarrow> \<not> success mr))"
proof (cases "dryRun opts")
  case True
  with assms show ?thesis
    by (auto simp: processSingleMessage_def intro: exI [of _ "clock imp"])
next
  case False
  obtain m1 r1 where mp: "markAsProcessing (clock imp) m = (m1, r1)" by fastforce
  note f1 = updateStatus_frame [OF mp [unfolded markAsProcessing_def]]
  show ?thesis
  proof (cases r1)
    case (Inl e)
    with assms False mp have "singleMessageFailed imp m1 e = (imp2, m', sr)"
      by (simp add: processSingleMessage_def)
    from singleMessageFailed_effect [OF this] f1 False show ?thesis
      by (auto intro: exI [of _ "clock imp"])
  next
    case (Inr tr)
    let ?imp = "imp\<lparr>clock := clock imp + int (sendTime env)\<rparr>"
    show ?thesis
    proof (cases "outcome env")
      case (Rejected sc s)
      with assms False mp Inr have "singleMessageFailed ?imp m1 (ChannelError sc s) = (imp2, m', sr)"
        by (simp add: processSingleMessage_def Let_def)
      from singleMessageFailed_effect [OF this] f1 False show ?thesis
        by (auto intro: exI [of _ "clock imp + int (sendTime env)"])
    next
      case (Delivered w)
      obtain m2 r2 where ms: "markAsSent (clock ?imp) m1 = (m2, r2)" by fastforce
      note f2 = updateStatus_frame [OF ms [unfolded markAsSent_def]]
      show ?thesis
      proof (cases r2)
        case (Inl e)
        with assms False mp Inr Delivered ms
        have "singleMessageFailed ?imp m2 e = (imp2, m', sr)"
          by (simp add: processSingleMessage_def Let_def)
        from singleMessageFailed_effect [OF this] f1 f2 False Delivered show ?thesis
          by (auto intro: exI [of _ "clock imp + int (sendTime env)"])
      next
        case (Inr tr2)
        with assms False mp \<open>r1 = Inr tr\<close> Delivered ms
        have "imp2 = ?imp" "m' = m2"
          "sr = Inr \<lparr>success = True, sr_error = None, whatsappMessageId = Some w\<rparr>"
          by (simp_all add: processSingleMessage_def Let_def)
        with f1 f2 False Delivered show ?thesis
          by (auto intro: exI [of _ "clock imp + int (sendTime env)"])
      qed
    qed
  qed
qed

lemma recordSequence_append:
  "recordSequence t (xs @ ys) = recordSequence (recordSequence t xs) ys"
  by (induction xs arbitrary: t) (auto split: sum.splits)

lemma map_option_same: "map_option (\<lambda>t. t) x = x"
  by (cases x) simp_all

lemma ledger_clock [simp]: "ledger (imp\<lparr>clock := c\<rparr>) = ledger imp"
  by (simp add: ledger_def)

lemma ledger_runtimeState [simp]: "ledger (imp\<lparr>runtimeState := c\<rparr>) = ledger imp"
  by (simp add: ledger_def)

lemma waitForRateLimit_eq:
  "waitForRateLimit u imp =
     imp\<lparr>clock := clock imp
              + getRequiredWaitTime (clock imp) (config imp) (runtimeState imp)
              + max 0 (getRandomSleepDuration (config imp) u * 1000)\<rparr>"
  by (simp add: waitForRateLimit_def sleep_def Let_def getRequiredWaitTime_def max_def)

lemma record_create_ok:
  assumes "0 \<le> now" "(st = Failed \<and> truthy err) \<or> (st = Sent \<and> \<not> truthy err)"
  shows "record_create now mid tid st err sid =
     Inr \<lparr>messageId = mid, r_telegramId = tid, r_status = st, r_timestamp = now,
        r_errorMessage = err, retryCount = (if st = Failed then 1 else 0),
        sentMessageId = sid\<rparr>"
  using assms by (auto simp: record_create_def record_fromData_def record_validate_def)

lemma record_create_valid:
  "record_create now mid tid st err sid = Inr r \<Longrightarrow> record_validate now r = Inr ()"
  by (auto simp: record_create_def record_fromData_def split: sum.splits)

lemma record_create_Inr:
  "record_create now mid tid st err sid = Inr r \<Longrightarrow>
     r = \<lparr>messageId = mid, r_telegramId = tid, r_status = st, r_timestamp = now,
        r_errorMessage = err, retryCount = (if st = Failed then 1 else 0),
        sentMessageId = sid\<rparr>"
  by (auto simp: record_create_def record_fromData_def split: sum.splits)

lemma record_create_Inl:
  "record_create now mid tid st err sid = Inl e \<Longrightarrow> error_message e \<noteq> []"
  by (auto simp: record_create_def record_fromData_def record_validate_def split: sum.splits if_splits)

lemma recordProgress_Inl:
  "recordProgress now t r = Inl e \<Longrightarrow> error_message e \<noteq> []"
  by (auto simp: recordProgress_def split: sum.splits if_splits)

lemma recordProgress_ok:
  "isInitialized t \<Longrightarrow> record_validate now r = Inr () \<Longrightarrow> \<exists>t'. recordProgress now t r = Inr t'"
  by (simp add: recordProgress_def)

lemma recordOutcome_Inl:
  "recordOutcome imp m st err sid = Inl e \<Longrightarrow> error_message e \<noteq> []"
  by (auto simp: recordOutcome_def dest: record_create_Inl recordProgress_Inl
      split: option.splits sum.splits)

lemma recordOutcome_Inr:
  assumes "recordOutcome imp m st err sid = Inr imp'"
  shows "\<exists>new. appended imp imp' new \<and> clock imp' = clock imp
           \<and> runtimeState imp' = runtimeState imp
           \<and> (new = [] \<and> progressTracker imp = None
              \<or> (\<exists>rec. new = [rec] \<and> entry_for m (clock imp) rec \<and> r_status rec = st
                    \<and> tracking imp' \<and> tracking imp \<and> 0 \<le> clock imp))"
proof (cases "progressTracker imp")
  case None
  with assms have "imp' = imp" by (simp add: recordOutcome_def)
  with None show ?thesis by (simp add: appended_def)
next
  case (Some t)
  with assms obtain r t' where
    c: "record_create (clock imp) (msgId m) (telegramId m) st err sid = Inr r"
    and p: "recordProgress (clock imp) t r = Inr t'"
    and i: "imp' = imp\<lparr>progressTracker := Some t'\<rparr>"
    by (auto simp: recordOutcome_def split: sum.splits)
  note rc = record_create_Inr [OF c]
  from rc have ts: "r_timestamp r = clock imp" by simp
  from recordProgress_Inr [OF p] have lg: "progressLog (files t') = progressLog (files t) @ [r]"
    and ini: "isInitialized t'" and v: "record_validate (clock imp) r = Inr ()" by simp_all
  have "appended imp imp' [r]"
    using Some i p ts lg by (simp add: appended_def ledger_def)
  moreover have "entry_for m (clock imp) r" "r_status r = st"
    using rc record_validate_status [OF v] by (auto simp: entry_for_def)
  moreover have "tracking imp'" using i ini by (simp add: tracking_def)
  moreover have "tracking imp" using Some recordProgress_Inr [OF p] by (simp add: tracking_def)
  moreover have "0 \<le> clock imp" using v ts by (auto simp: record_validate_def split: if_splits)
  ultimately show ?thesis using i by (intro exI [of _ "[r]"]) simp
qed

lemma recordOutcome_ok:
  assumes "tracking imp" "0 \<le> clock imp"
    "(st = Failed \<and> truthy err) \<or> (st = Sent \<and> \<not> truthy err)"
  shows "\<exists>imp'. recordOutcome imp m st err sid = Inr imp'"
proof -
  from assms(1) obtain t where t: "progressTracker imp = Some t" "isInitialized t"
    by (auto simp: tracking_def split: option.splits)
  from record_create_ok [OF assms(2,3)] obtain r where
    c: "record_create (clock imp) (msgId m) (telegramId m) st err sid = Inr r" by blast
  from recordProgress_ok [OF t(2) record_create_valid [OF c]] obtain t' where
    "recordProgress (clock imp) t r = Inr t'" by blast
  with t c show ?thesis by (simp add: recordOutcome_def)
qed

lemma appended_refl: "appended imp imp []"
  by (simp add: appended_def map_option_same)

lemma appended_clock: "appended imp (imp\<lparr>clock := c\<rparr>) []"
  by (simp add: appended_def map_option_same)

lemma appended_runtimeState: "appended imp imp' new \<Longrightarrow> appended imp (imp'\<lparr>runtimeState := rs\<rparr>) new"
  by (simp add: appended_def)

lemma appended_trans:
  "appended a b xs \<Longrightarrow> appended b c ys \<Longrightarrow> appended a c (xs @ ys)"
  by (cases "progressTracker a") (simp_all add: appended_def recordSequence_append)

lemma appended_tracker_None:
  "appended a b xs \<Longrightarrow> (progressTracker b = None) = (progressTracker a = None)"
  by (simp add: appended_def)

lemma tracking_clock [simp]: "tracking (imp\<lparr>clock := c\<rparr>) = tracking imp"
  by (simp add: tracking_def)

lemma tracking_runtimeState [simp]: "tracking (imp\<lparr>runtimeState := c\<rparr>) = tracking imp"
  by (simp add: tracking_def)

lemma waitForRateLimit_clock_mono: "clock imp \<le> clock (waitForRateLimit u imp)"
  by (simp add: waitForRateLimit_eq getRequiredWaitTime_def)

lemma sendable_later: "sendable c m \<Longrightarrow> c \<le> c' \<Longrightarrow> sendable c' m"
  by (simp add: sendable_def)

lemma attempt_succeeds_dryRun: "dryRun opts \<Longrightarrow> attempt_succeeds opts env imp m"
  by (simp add: attempt_succeeds_def processSingleMessage_def)

lemma attempt_succeeds_Rejected:
  assumes "\<not> dryRun opts" "outcome env = Rejected sc s"
  shows "\<not> attempt_succeeds opts env imp m"
proof -
  obtain imp2 m2 sr where ps:
    "processSingleMessage opts env (waitForRateLimit (rnd env) imp) m = (imp2, m2, sr)"
    by (metis prod_cases3)
  from processSingleMessage_effect [OF ps] assms ps show ?thesis
    by (cases sr) (auto simp: attempt_succeeds_def)
qed

lemma processSingleMessage_Delivered:
  assumes "\<not> dryRun opts" "sendable (clock imp) m" "outcome env = Delivered w"
  shows "\<exists>imp2 m2. processSingleMessage opts env imp m
           = (imp2, m2, Inr \<lparr>success = True, sr_error = None, whatsappMessageId = Some w\<rparr>)"
  using assms
  by (simp add: processSingleMessage_def sendable_def markAsProcessing_def markAsSent_def
      updateStatus_def canTransitionTo_def statusTransitions_def message_validate_def Let_def)

lemma attempt_succeeds_Delivered:
  assumes "\<not> dryRun opts" "sendable (clock imp) m" "outcome env = Delivered w"
  shows "attempt_succeeds opts env imp m"
proof -
  from sendable_later [OF assms(2) waitForRateLimit_clock_mono]
  have "sendable (clock (waitForRateLimit (rnd env) imp)) m" .
  from processSingleMessage_Delivered [OF assms(1) this assms(3)] show ?thesis
    by (auto simp: attempt_succeeds_def)
qed

lemma tryMessage_effect:
  assumes "tryMessage opts env imp res m = (imp', res', m', eo)"
  shows "\<exists>new. appended imp imp' new
           \<and> clock (waitForRateLimit (rnd env) imp) \<le> clock imp'
           \<and> msgId m' = msgId m \<and> telegramId m' = telegramId m
           \<and> (\<forall>e. eo = Some e \<longrightarrow> new = [] \<and> error_message e \<noteq> []
                  \<and> runtimeState imp' = runtimeState imp \<and> tracking imp' = tracking imp
                  \<and> (attempt_succeeds opts env imp m \<longrightarrow> tracking imp \<longrightarrow> clock imp' < 0))
           \<and> (eo = None \<longrightarrow>
                 (new = [] \<and> progressTracker imp = None
                  \<or> (\<exists>rec. new = [rec] \<and> entry_for m (clock imp') rec \<and> tracking imp'
                        \<and> (r_status rec = Sent) = attempt_succeeds opts env imp m))
               \<and> (if attempt_succeeds opts env imp m
                    then runtimeState imp' = updateRateLimit (clock imp') (runtimeState imp)
                      \<and> res' = res\<lparr>res_processed := res_processed res + 1,
                                    res_successful := res_successful res + 1\<rparr>
                    else runtimeState imp' = runtimeState imp))"
proof -
  let ?imp1 = "waitForRateLimit (rnd env) imp"
  obtain imp2 m2 sr where ps: "processSingleMessage opts env ?imp1 m = (imp2, m2, sr)"
    by (metis prod_cases3)
  from processSingleMessage_effect [OF ps] obtain c where
    c: "imp2 = ?imp1\<lparr>clock := c\<rparr>" "clock ?imp1 \<le> c"
    and ids: "msgId m2 = msgId m" "telegramId m2 = telegramId m"
    and inl: "\<And>x. sr = Inl x \<Longrightarrow> error_message x \<noteq> []"
    and inr: "\<And>mr. sr = Inr mr \<Longrightarrow> (success mr \<longrightarrow> sr_error mr = None)"
    by blast
  have a12: "appended imp imp2 []" "tracking imp2 = tracking imp" "runtimeState imp2 = runtimeState imp"
    "clock imp2 = c"
    unfolding c(1) waitForRateLimit_eq by (simp_all add: appended_def map_option_same)
  show ?thesis
  proof (cases sr)
    case (Inl e)
    with assms ps have "imp' = imp2" "res' = res" "m' = m2" "eo = Some e"
      by (simp_all add: tryMessage_def Let_def)
    moreover from ps Inl have "\<not> attempt_succeeds opts env imp m"
      by (simp add: attempt_succeeds_def)
    ultimately show ?thesis using a12 c ids inl [OF Inl]
      by (intro exI [of _ "[]"]) auto
  next
    case (Inr mr)
    let ?st = "if success mr then Sent else Failed"
    let ?ro = "recordOutcome imp2 m2 ?st (or_null (sr_error mr)) (or_null (whatsappMessageId mr))"
    note mr = inr [OF Inr]
    from ps Inr have as: "attempt_succeeds opts env imp m = success mr"
      by (simp add: attempt_succeeds_def)
    show ?thesis
    proof (cases ?ro)
      case (Inl e)
      with assms ps Inr have r: "imp' = imp2" "m' = m2" "eo = Some e"
        by (simp_all add: tryMessage_def Let_def)
      have "success mr \<Longrightarrow> tracking imp \<Longrightarrow> clock imp2 < 0"
      proof (rule ccontr)
        assume d: "success mr" and t: "tracking imp" and "\<not> clock imp2 < 0"
        with mr have "success mr" "sr_error mr = None" "0 \<le> clock imp2" by auto
        with recordOutcome_ok [of imp2 ?st "or_null (sr_error mr)" m2 "or_null (whatsappMessageId mr)"]
          t a12 Inl
        show False by (auto simp: or_null_def truthy_def)
      qed
      with r a12 c ids recordOutcome_Inl [OF Inl] as show ?thesis
        by (intro exI [of _ "[]"]) auto
    next
      case (Inr imp3)
      from recordOutcome_Inr [OF Inr] obtain new where
        n: "appended imp2 imp3 new" "clock imp3 = clock imp2" "runtimeState imp3 = runtimeState imp2"
          "new = [] \<and> progressTracker imp2 = None
           \<or> (\<exists>rec. new = [rec] \<and> entry_for m2 (clock imp2) rec \<and> r_status rec = ?st \<and> tracking imp3
                  \<and> tracking imp2 \<and> 0 \<le> clock imp2)"
        by blast
      from assms ps \<open>sr = Inr mr\<close> Inr have r: "m' = m2" "eo = None"
        "imp' = (if success mr then imp3\<lparr>runtimeState := updateRateLimit (clock imp3) (runtimeState imp3)\<rparr> else imp3)"
        "success mr \<Longrightarrow> res' = res\<lparr>res_processed := res_processed res + 1,
                                   res_successful := res_successful res + 1\<rparr>"
        by (auto simp: tryMessage_def Let_def split: if_splits)
      have ap: "appended imp imp' new"
        using appended_trans [OF a12(1) n(1)] r(3) by (auto intro: appended_runtimeState)
      have pt: "progressTracker imp2 = progressTracker imp"
        unfolding c(1) waitForRateLimit_eq by simp
      have ck: "clock imp' = c" using r(3) n(2) a12(4) by auto
      have ef: "\<And>rec. entry_for m2 c rec = entry_for m c rec"
        using ids by (simp add: entry_for_def)
      have tr: "tracking imp' = tracking imp3" using r(3) by auto
      show ?thesis
        apply (intro exI [of _ new])
        using ap c(2) ids r as n(2-) a12(3,4) pt ck ef tr
        by auto
    qed
  qed
qed

lemma processOne_effect:
  assumes "processOne opts env imp res m = (imp', m', r)"
  shows "\<exists>new. appended imp imp' new
           \<and> clock (waitForRateLimit (rnd env) imp) \<le> clock imp'
           \<and> msgId m' = msgId m
           \<and> (new = []
              \<or> (\<exists>rec. new = [rec] \<and> entry_for m (clock imp') rec \<and> tracking imp'
                    \<and> (r_status rec = Sent) = attempt_succeeds opts env imp m))
           \<and> (runtimeState imp' = runtimeState imp
              \<or> runtimeState imp' = updateRateLimit (clock imp') (runtimeState imp)
                 \<and> attempt_succeeds opts env imp m)
           \<and> (\<forall>e. r = Inl e \<longrightarrow> new = [])
           \<and> (tracking imp \<longrightarrow> 0 \<le> clock imp \<longrightarrow>
                 (\<exists>res'. r = Inr res') \<and> new \<noteq> []
                 \<and> (attempt_succeeds opts env imp m \<longrightarrow>
                       runtimeState imp' = updateRateLimit (clock imp') (runtimeState imp)
                     \<and> r = Inr (res\<lparr>res_processed := res_processed res + 1,
                                     res_successful := res_successful res + 1\<rparr>)))"
proof -
  obtain impt rest mt eo where tm: "tryMessage opts env imp res m = (impt, rest, mt, eo)"
    by (metis prod_cases4)
  from tryMessage_effect [OF tm] obtain new where
    ap: "appended imp impt new"
    and ck: "clock (waitForRateLimit (rnd env) imp) \<le> clock impt"
    and ids: "msgId mt = msgId m" "telegramId mt = telegramId m"
    and some: "\<And>e. eo = Some e \<Longrightarrow> new = [] \<and> error_message e \<noteq> []
                  \<and> runtimeState impt = runtimeState imp \<and> tracking impt = tracking imp
                  \<and> (attempt_succeeds opts env imp m \<longrightarrow> tracking imp \<longrightarrow> clock impt < 0)"
    and none: "eo = None \<Longrightarrow>
                 (new = [] \<and> progressTracker imp = None
                  \<or> (\<exists>rec. new = [rec] \<and> entry_for m (clock impt) rec \<and> tracking impt
                        \<and> (r_status rec = Sent) = attempt_succeeds opts env imp m))
               \<and> (if attempt_succeeds opts env imp m
                    then runtimeState impt = updateRateLimit (clock impt) (runtimeState imp)
                      \<and> rest = res\<lparr>res_processed := res_processed res + 1,
                                    res_successful := res_successful res + 1\<rparr>
                    else runtimeState impt = runtimeState imp)"
    by blast
  note wm = waitForRateLimit_clock_mono [of imp "rnd env"]
  show ?thesis
  proof (cases eo)
    case None
    with assms tm have r: "imp' = impt" "m' = mt" "r = Inr rest"
      by (simp_all add: processOne_def)
    from none [OF None] ap ck ids r show ?thesis
      by (intro exI [of _ new]) (auto simp: tracking_def split: if_splits)
  next
    case (Some e)
    note s = some [OF Some]
    let ?ro = "recordOutcome impt mt Failed (Some (error_message e)) None"
    have ef: "\<And>c rec. entry_for mt c rec = entry_for m c rec"
      using ids by (simp add: entry_for_def)
    show ?thesis
    proof (cases ?ro)
      case (Inl e')
      with assms tm Some have r: "imp' = impt" "m' = mt" "r = Inl e'"
        by (simp_all add: processOne_def Let_def)
      have "\<not> (tracking imp \<and> 0 \<le> clock imp)"
      proof
        assume "tracking imp \<and> 0 \<le> clock imp"
        with s ck wm have "tracking impt" "0 \<le> clock impt" by auto
        from recordOutcome_ok [OF this, of Failed "Some (error_message e)" mt None] s Inl
        show False by (auto simp: truthy_def)
      qed
      with r s ap ck ids show ?thesis
        by (intro exI [of _ "[]"]) auto
    next
      case (Inr imp3)
      with assms tm Some have r: "imp' = imp3" "m' = mt" "\<exists>res'. r = Inr res'"
        by (auto simp: processOne_def Let_def)
      from recordOutcome_Inr [OF Inr] obtain new2 where
        n: "appended impt imp3 new2" "clock imp3 = clock impt" "runtimeState imp3 = runtimeState impt"
          "new2 = [] \<and> progressTracker impt = None
           \<or> (\<exists>rec. new2 = [rec] \<and> entry_for mt (clock impt) rec \<and> r_status rec = Failed
                 \<and> tracking imp3 \<and> tracking impt \<and> 0 \<le> clock impt)"
        by blast
      from appended_trans [OF ap n(1)] s have ap': "appended imp imp' new2"
        using r by simp
      have nd: "new2 \<noteq> [] \<Longrightarrow> \<not> attempt_succeeds opts env imp m"
        using n(4) s by auto
      have tn: "tracking imp \<Longrightarrow> new2 \<noteq> []"
        using n(4) s by (auto simp: tracking_def)
      have na: "tracking imp \<Longrightarrow> 0 \<le> clock imp \<Longrightarrow> \<not> attempt_succeeds opts env imp m"
        using s ck wm by auto
      show ?thesis
        apply (intro exI [of _ new2])
        using ap' ck ids r n(2-) s ef nd tn na
        by auto
    qed
  qed
qed

section \<open>The loop\<close>

lemma appended_unique: "appended a b xs \<Longrightarrow> appended a b ys \<Longrightarrow> xs = ys"
  by (simp add: appended_def)

lemma appended_config: "appended a b xs \<Longrightarrow> config b = config a \<and> isPaused b = isPaused a"
  by (simp add: appended_def)

lemma processLoop_effect:
  assumes "processLoop opts env i msgs imp res = (imp', ms', r)"
  shows "\<exists>new. appended imp imp' new \<and> clock imp \<le> clock imp'
           \<and> map msgId ms' = map msgId msgs
           \<and> (\<forall>rec \<in> set new. messageId rec \<in> msgId ` set msgs
                 \<and> retryCount rec = (if r_status rec = Failed then 1 else 0)
                 \<and> (r_status rec = Sent \<or> r_status rec = Failed)
                 \<and> r_timestamp rec \<le> clock imp')"
  using assms
proof (induction msgs arbitrary: i imp res imp' ms' r)
  case Nil
  then show ?case by (auto intro: exI [of _ "[]"] simp: appended_refl)
next
  case (Cons m ms)
  show ?case
  proof (cases "isPaused imp")
    case True
    with Cons.prems show ?thesis by (auto intro: exI [of _ "[]"] simp: appended_refl)
  next
    case False
    obtain imp1 m1 r1 where po: "processOne opts (env i) imp res m = (imp1, m1, r1)"
      by (metis prod_cases3)
    from processOne_effect [OF po] obtain new1 where
      e1: "appended imp imp1 new1" "clock (waitForRateLimit (rnd (env i)) imp) \<le> clock imp1"
        "msgId m1 = msgId m"
        "new1 = [] \<or> (\<exists>rec. new1 = [rec] \<and> entry_for m (clock imp1) rec)"
      by blast
    from e1(2) waitForRateLimit_clock_mono [of imp "rnd (env i)"]
    have ck1: "clock imp \<le> clock imp1" by simp
    show ?thesis
    proof (cases r1)
      case (Inl e)
      with Cons.prems False po have "imp' = imp1" "ms' = m1 # ms" by simp_all
      with e1 ck1 show ?thesis
        by (intro exI [of _ new1]) (auto simp: entry_for_def)
    next
      case (Inr res1)
      obtain imp2 ms2 r2 where pl: "processLoop opts env (Suc i) ms imp1 res1 = (imp2, ms2, r2)"
        by (metis prod_cases3)
      with Cons.prems False po Inr have r: "imp' = imp2" "ms' = m1 # ms2" by simp_all
      from Cons.IH [OF pl] obtain new2 where
        e2: "appended imp1 imp2 new2" "clock imp1 \<le> clock imp2" "map msgId ms2 = map msgId ms"
          "\<forall>rec \<in> set new2. messageId rec \<in> msgId ` set ms
                 \<and> retryCount rec = (if r_status rec = Failed then 1 else 0)
                 \<and> (r_status rec = Sent \<or> r_status rec = Failed)
                 \<and> r_timestamp rec \<le> clock imp2"
        by blast
      from appended_trans [OF e1(1) e2(1)] r e1 e2 ck1 show ?thesis
        by (intro exI [of _ "new1 @ new2"]) (auto simp: entry_for_def)
    qed
  qed
qed

lemma spaced_from_earlier: "spaced_from d c' xs \<Longrightarrow> c \<le> c' \<Longrightarrow> spaced_from d c xs"
  by (cases xs) auto

lemma spaced_from_filter:
  "0 \<le> d \<Longrightarrow> spaced_from d c (map f xs) \<Longrightarrow> spaced_from d c (map f (filter P xs))"
proof (induction xs arbitrary: c)
  case Nil
  then show ?case by simp
next
  case (Cons x xs)
  show ?case
  proof (cases "P x")
    case True
    with Cons show ?thesis by simp
  next
    case False
    from Cons.prems have "spaced_from d (f x) (map f xs)" "c \<le> f x" by simp_all
    from Cons.IH [OF Cons.prems(1) spaced_from_earlier [OF this]] False show ?thesis by simp
  qed
qed

lemma getRandomSleepDuration_lower:
  assumes "0 \<le> u" "sleepMin cfg \<le> sleepMax cfg"
  shows "sleepMin cfg \<le> getRandomSleepDuration cfg u"
proof -
  from assms have "0 \<le> u * of_int (sleepMax cfg - sleepMin cfg + 1)" by simp
  then have "0 \<le> \<lfloor>u * of_int (sleepMax cfg - sleepMin cfg + 1)\<rfloor>" by simp
  then show ?thesis by (simp add: getRandomSleepDuration_def)
qed

lemma getRandomSleepDuration_upper:
  assumes "u < 1" "sleepMin cfg \<le> sleepMax cfg"
  shows "getRandomSleepDuration cfg u \<le> sleepMax cfg"
proof -
  define k where "k = sleepMax cfg - sleepMin cfg + 1"
  with assms(2) have "0 < k" by simp
  then have "(0::rat) < of_int k" by simp
  with assms(1) have "u * of_int k < 1 * of_int k"
    by (rule mult_strict_right_mono)
  then have "\<lfloor>u * of_int k\<rfloor> < k" by (simp add: floor_less_iff)
  then show ?thesis by (simp add: getRandomSleepDuration_def k_def)
qed

lemma waitForRateLimit_floor:
  assumes "0 \<le> u" "sleepMin (config imp) \<le> sleepMax (config imp)"
  shows "clock imp + sleepMin (config imp) * 1000 \<le> clock (waitForRateLimit u imp)"
proof -
  from getRandomSleepDuration_lower [OF assms] 
  have "sleepMin (config imp) * 1000 \<le> getRandomSleepDuration (config imp) u * 1000" by simp
  then show ?thesis
    by (simp add: waitForRateLimit_eq getRequiredWaitTime_def)
qed

lemma processLoop_spaced:
  assumes "processLoop opts env i msgs imp res = (imp', ms', r)"
    and "sleepMin (config imp) \<le> sleepMax (config imp)" and "\<forall>k. 0 \<le> rnd (env k)"
  shows "\<exists>new. appended imp imp' new
           \<and> spaced_from (sleepMin (config imp) * 1000) (clock imp) (map r_timestamp new)"
  using assms
proof (induction msgs arbitrary: i imp res imp' ms' r)
  case Nil
  then show ?case by (auto intro: exI [of _ "[]"] simp: appended_refl)
next
  case (Cons m ms)
  show ?case
  proof (cases "isPaused imp")
    case True
    with Cons.prems show ?thesis by (auto intro: exI [of _ "[]"] simp: appended_refl)
  next
    case False
    obtain imp1 m1 r1 where po: "processOne opts (env i) imp res m = (imp1, m1, r1)"
      by (metis prod_cases3)
    from processOne_effect [OF po] obtain new1 where
      e1: "appended imp imp1 new1" "clock (waitForRateLimit (rnd (env i)) imp) \<le> clock imp1"
        "new1 = [] \<or> (\<exists>rec. new1 = [rec] \<and> entry_for m (clock imp1) rec)"
      by blast
    from Cons.prems(3) have "0 \<le> rnd (env i)" by simp
    from e1(2) waitForRateLimit_floor [OF this Cons.prems(2)]
    have ck1: "clock imp + sleepMin (config imp) * 1000 \<le> clock imp1" by simp
    have ck0: "clock imp \<le> clock imp1"
      using e1(2) waitForRateLimit_clock_mono [of imp "rnd (env i)"] by simp
    have sp1: "spaced_from (sleepMin (config imp) * 1000) (clock imp) (map r_timestamp new1)"
      using e1(3) ck1 by (auto simp: entry_for_def)
    show ?thesis
    proof (cases r1)
      case (Inl e)
      with Cons.prems False po have "imp' = imp1" by simp
      with e1 sp1 show ?thesis by (intro exI [of _ new1]) simp
    next
      case (Inr res1)
      obtain imp2 ms2 r2 where pl: "processLoop opts env (Suc i) ms imp1 res1 = (imp2, ms2, r2)"
        by (metis prod_cases3)
      with Cons.prems False po Inr have r: "imp' = imp2" by simp
      from appended_config [OF e1(1)] have cf: "config imp1 = config imp" by simp
      from Cons.IH [OF pl] Cons.prems(2,3) cf obtain new2 where
        e2: "appended imp1 imp2 new2"
          "spaced_from (sleepMin (config imp) * 1000) (clock imp1) (map r_timestamp new2)"
        by auto
      have "spaced_from (sleepMin (config imp) * 1000) (clock imp) (map r_timestamp (new1 @ new2))"
      proof (cases new1)
        case Nil
        with spaced_from_earlier [OF e2(2) ck0] show ?thesis by simp
      next
        case (Cons rec rest)
        with e1(3) have "new1 = [rec]" "r_timestamp rec = clock imp1"
          by (auto simp: entry_for_def)
        with e2(2) ck1 show ?thesis by simp
      qed
      with appended_trans [OF e1(1) e2(1)] r show ?thesis
        by (intro exI [of _ "new1 @ new2"]) simp
    qed
  qed
qed

lemma appended_tracking_paused:
  "appended a b xs \<Longrightarrow> isPaused b = isPaused a"
  by (simp add: appended_def)

lemma processLoop_tracked:
  assumes "processLoop opts env i msgs imp res = (imp', ms', r)"
    and "tracking imp" and "0 \<le> clock imp" and "\<not> isPaused imp"
  shows "\<exists>new res'. appended imp imp' new \<and> r = Inr res' \<and> tracking imp'
           \<and> map messageId new = map msgId msgs
           \<and> (\<forall>k < length msgs. \<not> dryRun opts \<longrightarrow>
                 (\<exists>sc s. outcome (env (i + k)) = Rejected sc s) \<longrightarrow> r_status (new ! k) = Failed)"
  using assms
proof (induction msgs arbitrary: i imp res imp' ms' r)
  case Nil
  then show ?case by (auto intro: exI [of _ "[]"] simp: appended_refl)
next
  case (Cons m ms)
  obtain imp1 m1 r1 where po: "processOne opts (env i) imp res m = (imp1, m1, r1)"
    by (metis prod_cases3)
  from processOne_effect [OF po] Cons.prems(2,3) obtain new1 res1 where
    e1: "appended imp imp1 new1" "clock (waitForRateLimit (rnd (env i)) imp) \<le> clock imp1"
      "new1 = [] \<or> (\<exists>rec. new1 = [rec] \<and> entry_for m (clock imp1) rec \<and> tracking imp1
          \<and> (r_status rec = Sent) = attempt_succeeds opts (env i) imp m)"
      "r1 = Inr res1" "new1 \<noteq> []"
    by blast
  from e1(3,5) obtain rec where rec: "new1 = [rec]" "entry_for m (clock imp1) rec" "tracking imp1"
    "(r_status rec = Sent) = attempt_succeeds opts (env i) imp m" by blast
  have ck1: "0 \<le> clock imp1"
    using e1(2) waitForRateLimit_clock_mono [of imp "rnd (env i)"] Cons.prems(3) by simp
  have np: "\<not> isPaused imp1" using appended_tracking_paused [OF e1(1)] Cons.prems(4) by simp
  obtain imp2 ms2 r2 where pl: "processLoop opts env (Suc i) ms imp1 res1 = (imp2, ms2, r2)"
    by (metis prod_cases3)
  with Cons.prems po e1(4) have r: "imp' = imp2" "r = r2" by simp_all
  from Cons.IH [OF pl rec(3) ck1 np] obtain new2 res2 where
    e2: "appended imp1 imp2 new2" "r2 = Inr res2" "tracking imp2"
      "map messageId new2 = map msgId ms"
      "\<forall>k < length ms. \<not> dryRun opts \<longrightarrow>
          (\<exists>sc s. outcome (env (Suc i + k)) = Rejected sc s) \<longrightarrow> r_status (new2 ! k) = Failed"
    by blast
  have st: "\<not> dryRun opts \<Longrightarrow> (\<exists>sc s. outcome (env i) = Rejected sc s) \<Longrightarrow> r_status rec = Failed"
    using rec(2,4) attempt_succeeds_Rejected [of opts "env i" _ _ imp m]
    by (auto simp: entry_for_def)
  have "\<forall>k < length (m # ms). \<not> dryRun opts \<longrightarrow>
          (\<exists>sc s. outcome (env (i + k)) = Rejected sc s) \<longrightarrow> r_status ((rec # new2) ! k) = Failed"
  proof (intro allI impI)
    fix k assume k: "k < length (m # ms)" and d: "\<not> dryRun opts"
      and o: "\<exists>sc s. outcome (env (i + k)) = Rejected sc s"
    show "r_status ((rec # new2) ! k) = Failed"
    proof (cases k)
      case 0
      with st d o show ?thesis by simp
    next
      case (Suc j)
      with k e2(5) d o show ?thesis by simp
    qed
  qed
  with appended_trans [OF e1(1) e2(1)] r e2 rec show ?case
    by (intro exI [of _ "rec # new2"] exI [of _ res2]) (simp add: entry_for_def)
qed

lemma processLoop_all_sent:
  assumes "processLoop opts env i msgs imp res = (imp', ms', r)"
    and "tracking imp" and "0 \<le> clock imp" and "\<not> isPaused imp"
    and "dryRun opts \<or> (list_all (sendable (clock imp)) msgs \<and> (\<forall>k. \<exists>w. outcome (env k) = Delivered w))"
  shows "\<exists>new. appended imp imp' new \<and> tracking imp'
           \<and> map messageId new = map msgId msgs
           \<and> (\<forall>rec \<in> set new. r_status rec = Sent)
           \<and> r = Inr (res\<lparr>res_processed := res_processed res + int (length msgs),
                           res_successful := res_successful res + int (length msgs)\<rparr>)
           \<and> messageCount (runtimeState imp') = messageCount (runtimeState imp) + int (length msgs)
           \<and> dailyLimit (runtimeState imp') = dailyLimit (runtimeState imp)"
  using assms
proof (induction msgs arbitrary: i imp res imp' ms' r)
  case Nil
  then show ?case by (auto intro: exI [of _ "[]"] simp: appended_refl)
next
  case (Cons m ms)
  obtain imp1 m1 r1 where po: "processOne opts (env i) imp res m = (imp1, m1, r1)"
    by (metis prod_cases3)
  have as: "attempt_succeeds opts (env i) imp m"
  proof (cases "dryRun opts")
    case True
    then show ?thesis by (rule attempt_succeeds_dryRun)
  next
    case False
    with Cons.prems(5) obtain w where "sendable (clock imp) m" "outcome (env i) = Delivered w"
      by auto
    from attempt_succeeds_Delivered [OF False this] show ?thesis .
  qed
  let ?res1 = "res\<lparr>res_processed := res_processed res + 1,
                    res_successful := res_successful res + 1\<rparr>"
  from processOne_effect [OF po] Cons.prems(2,3) as obtain new1 where
    e1: "appended imp imp1 new1" "clock (waitForRateLimit (rnd (env i)) imp) \<le> clock imp1"
      "new1 = [] \<or> (\<exists>rec. new1 = [rec] \<and> entry_for m (clock imp1) rec \<and> tracking imp1
          \<and> (r_status rec = Sent) = attempt_succeeds opts (env i) imp m)"
      "new1 \<noteq> []" "runtimeState imp1 = updateRateLimit (clock imp1) (runtimeState imp)"
      "r1 = Inr ?res1"
    by blast
  from e1(3,4) as obtain rec where rec: "new1 = [rec]" "entry_for m (clock imp1) rec" "tracking imp1"
    "r_status rec = Sent" by blast
  have ck0: "clock imp \<le> clock imp1"
    using e1(2) waitForRateLimit_clock_mono [of imp "rnd (env i)"] by simp
  with Cons.prems(3) have ck1: "0 \<le> clock imp1" by simp
  have np: "\<not> isPaused imp1" using appended_tracking_paused [OF e1(1)] Cons.prems(4) by simp
  have h5: "dryRun opts \<or> (list_all (sendable (clock imp1)) ms \<and> (\<forall>k. \<exists>w. outcome (env k) = Delivered w))"
    using Cons.prems(5) ck0 by (auto simp: list_all_iff intro: sendable_later)
  obtain imp2 ms2 r2 where pl: "processLoop opts env (Suc i) ms imp1 ?res1 = (imp2, ms2, r2)"
    by (metis prod_cases3)
  with Cons.prems po e1(6) have r: "imp' = imp2" "r = r2" by simp_all
  from Cons.IH [OF pl rec(3) ck1 np h5] obtain new2 where
    e2: "appended imp1 imp2 new2" "tracking imp2"
      "map messageId new2 = map msgId ms" "\<forall>rec \<in> set new2. r_status rec = Sent"
      "r2 = Inr (?res1\<lparr>res_processed := res_processed ?res1 + int (length ms),
                           res_successful := res_successful ?res1 + int (length ms)\<rparr>)"
      "messageCount (runtimeState imp2) = messageCount (runtimeState imp1) + int (length ms)"
      "dailyLimit (runtimeState imp2) = dailyLimit (runtimeState imp1)"
    by blast
  from appended_trans [OF e1(1) e2(1)] r e2 rec e1(5) show ?case
    by (intro exI [of _ "rec # new2"]) (simp add: entry_for_def updateRateLimit_def algebra_simps)
qed

section \<open>Start-up and the whole run\<close>

lemma updateStatus_Inr:
  "updateStatus now m s e = (m', Inr tr) \<Longrightarrow> status m' = s \<and> msgId m' = msgId m"
  by (auto simp: updateStatus_def Let_def split: if_splits sum.splits)

lemma syncMessage_Inr:
  assumes "syncMessage now t m = Inr m'"
  shows "msgId m' = msgId m
         \<and> (isMessageSuccessful t (msgId m) \<longrightarrow> status m' = Sent)
         \<and> (isMessageFailed t (msgId m) \<longrightarrow> status m' = Failed)
         \<and> (\<not> isMessageSuccessful t (msgId m) \<longrightarrow> \<not> isMessageFailed t (msgId m) \<longrightarrow> m' = m)"
proof -
  have ex: "\<not> (isMessageSuccessful t (msgId m) \<and> isMessageFailed t (msgId m))"
    by (auto simp: isMessageSuccessful_def isMessageFailed_def split: option.splits)
  show ?thesis
  proof (cases "isMessageSuccessful t (msgId m)")
    case True
    with assms obtain m1 tr m2 tr2 where
      "markAsProcessing now m = (m1, Inr tr)" "markAsSent now m1 = (m2, Inr tr2)" "m' = m2"
      by (auto simp: syncMessage_def split: prod.splits sum.splits)
    with updateStatus_Inr [of now m Processing None m1 tr]
      updateStatus_Inr [of now m1 Sent None m2 tr2] True ex
    show ?thesis by (auto simp: markAsProcessing_def markAsSent_def)
  next
    case False
    show ?thesis
    proof (cases "isMessageFailed t (msgId m)")
      case True
      with assms False obtain m1 tr m2 tr2 where
        "markAsProcessing now m = (m1, Inr tr)"
        "markAsFailed now m1 (Some ''Previous attempt failed'') = (m2, Inr tr2)" "m' = m2"
        by (auto simp: syncMessage_def split: prod.splits sum.splits)
      with updateStatus_Inr [of now m Processing None m1 tr]
        updateStatus_Inr [of now m1 Failed "Some ''Previous attempt failed''" m2 tr2] True False
      show ?thesis by (auto simp: markAsProcessing_def markAsFailed_def)
    next
      case f: False
      with assms False show ?thesis by (simp add: syncMessage_def)
    qed
  qed
qed

lemma syncPlanWithProgress_Inr:
  "syncPlanWithProgress now t plan = Inr plan' \<Longrightarrow>
     map msgId plan' = map msgId plan
     \<and> (\<forall>m \<in> set plan'. (isMessageSuccessful t (msgId m) \<longrightarrow> status m = Sent)
                         \<and> (isMessageFailed t (msgId m) \<longrightarrow> status m = Failed))"
proof (induction plan arbitrary: plan')
  case Nil
  then show ?case by simp
next
  case (Cons m ms)
  from Cons.prems obtain m' ms' where
    s: "syncMessage now t m = Inr m'" "syncPlanWithProgress now t ms = Inr ms'" "plan' = m' # ms'"
    by (auto split: sum.splits)
  from syncMessage_Inr [OF s(1)] Cons.IH [OF s(2)] s(3) show ?case by simp
qed

lemma loadProgressRecords_latest:
  "loadProgressRecords now lg recs = Inr recs' \<Longrightarrow>
     recs' mid = (case latestEntry lg mid of Some r \<Rightarrow> Some r | None \<Rightarrow> recs mid)"
proof (induction lg arbitrary: recs)
  case Nil
  then show ?case by simp
next
  case (Cons r rs)
  from Cons.prems have "loadProgressRecords now rs (recs(messageId r \<mapsto> r)) = Inr recs'"
    by (auto simp: record_fromData_def split: sum.splits)
  from Cons.IH [OF this] show ?case by (auto split: option.splits)
qed

lemma initialize_Inr:
  assumes "initialize now path d n = Inr t"
  shows "isInitialized t \<and> progressLog (files t) = progressLog d
         \<and> (\<forall>mid. progressRecords t mid = latestEntry (progressLog d) mid)
         \<and> progressFile (files t) = Some (progressSummary t)
         \<and> (\<forall>data. progressFile d = Some data \<longrightarrow> files t = d \<and> progressSummary t = data)"
proof (cases "progressFile d")
  case None
  with assms obtain s recs where
    a: "loadProgressRecords now (progressLog d) Map.empty = Inr recs"
      "t = \<lparr>progressSummary = s, progressRecords = recs, isInitialized = True,
            files = d\<lparr>progressFile := Some s\<rparr>\<rparr>"
    by (auto simp: initialize_def split: sum.splits)
  from loadProgressRecords_latest [OF a(1)] a(2) None show ?thesis
    by (auto split: option.splits)
next
  case (Some data)
  with assms obtain recs where
    a: "loadProgressRecords now (progressLog d) Map.empty = Inr recs"
      "t = \<lparr>progressSummary = data, progressRecords = recs, isInitialized = True, files = d\<rparr>"
    by (auto simp: initialize_def summary_fromData_def split: sum.splits)
  from loadProgressRecords_latest [OF a(1)] a(2) Some show ?thesis
    by (auto split: option.splits)
qed

lemma initialize_Inl:
  "initialize now path d n = Inl (e, d') \<Longrightarrow>
     progressLog d' = progressLog d \<and> (progressFile d \<noteq> None \<longrightarrow> d' = d)"
  by (auto simp: initialize_def split: option.splits sum.splits prod.splits)

lemma updateProgress_Inr:
  "updateProgress now t st = Inr t' \<Longrightarrow> progressLog (files t') = progressLog (files t)"
  by (auto simp: updateProgress_def saveProgressSummary_def Let_def split: if_splits)

lemma processMessages_loop:
  assumes "processMessages opts env msgs imp = (imp', ms', r)"
  shows "\<exists>r0. processLoop opts env 0 msgs imp
             \<lparr>res_status = RRunning, res_total = int (length msgs), res_processed = 0,
              res_successful = 0, res_failed = 0, res_skipped = 0, res_errors = []\<rparr>
           = (imp', ms', r0)
         \<and> (\<forall>e. r0 = Inl e \<longrightarrow> r = Inl e)
         \<and> (\<forall>res. r0 = Inr res \<longrightarrow>
               r = Inr (if res_processed res = res_total res
                          then res\<lparr>res_status :=
                                 (if res_failed res = 0 then RCompleted else RCompletedWithErrors)\<rparr>
                        else res))"
  using assms by (auto simp: processMessages_def split: prod.splits sum.splits)

lemma getMessagesToProcess_ids:
  "msgId ` set (getMessagesToProcess plan opts) \<subseteq> msgId ` set plan"
  by (auto simp: getMessagesToProcess_def getUnprocessedMessages_def)

lemma getMessagesToProcess_resume:
  "resume opts \<Longrightarrow> m \<in> set (getMessagesToProcess plan opts) \<Longrightarrow> m \<in> set plan \<and> status m = Pending"
  by (auto simp: getMessagesToProcess_def getUnprocessedMessages_def)

lemma executeImport_effect:
  assumes "executeImport opts env plan imp = (imp', r)"
  shows "\<exists>new. ledger imp' = ledger imp @ new
           \<and> (\<forall>rec \<in> set new. messageId rec \<in> msgId ` set (getMessagesToProcess plan opts))
           \<and> (progressTracker imp' = None) = (progressTracker imp = None)"
proof (cases "(\<not> isConnected imp \<and> \<not> dryRun opts) \<or> getMessagesToProcess plan opts = []")
  case True
  with assms have "imp' = imp" by (auto simp: executeImport_def Let_def split: if_splits)
  then show ?thesis by (intro exI [of _ "[]"]) simp
next
  case False
  obtain imp1 ms1 r1 where pm:
    "processMessages opts env (getMessagesToProcess plan opts) imp = (imp1, ms1, r1)"
    by (metis prod_cases3)
  from processMessages_loop [OF pm] obtain r0 where
    "processLoop opts env 0 (getMessagesToProcess plan opts) imp
             \<lparr>res_status = RRunning, res_total = int (length (getMessagesToProcess plan opts)),
              res_processed = 0, res_successful = 0, res_failed = 0, res_skipped = 0,
              res_errors = []\<rparr> = (imp1, ms1, r0)" by blast
  from processLoop_effect [OF this] obtain new where
    n: "appended imp imp1 new"
      "\<forall>rec \<in> set new. messageId rec \<in> msgId ` set (getMessagesToProcess plan opts)"
    by blast
  from n(1) have l1: "ledger imp1 = ledger imp @ new"
    "(progressTracker imp1 = None) = (progressTracker imp = None)"
    by (simp_all add: appended_def)
  have "ledger imp' = ledger imp1 \<and> (progressTracker imp' = None) = (progressTracker imp1 = None)"
  proof (cases r1)
    case (Inr res)
    with assms False pm show ?thesis by (auto simp: executeImport_def Let_def)
  next
    case (Inl e)
    show ?thesis
    proof (cases "progressTracker imp1")
      case None
      with assms False pm Inl show ?thesis by (auto simp: executeImport_def Let_def)
    next
      case (Some t)
      show ?thesis
      proof (cases "updateProgress (clock imp1) t RunFailed")
        case i: (Inl e')
        with assms False pm Inl Some show ?thesis by (auto simp: executeImport_def Let_def)
      next
        case (Inr t')
        with assms False pm Inl Some have "imp' = imp1\<lparr>progressTracker := Some t'\<rparr>"
          by (auto simp: executeImport_def Let_def)
        with updateProgress_Inr [OF Inr] Some show ?thesis by (simp add: ledger_def)
      qed
    qed
  qed
  with l1 n(2) show ?thesis by (intro exI [of _ new]) simp
qed

lemma initializeProgressTracking_Inl:
  assumes "initializeProgressTracking now path d plan = Inl (e, d1)"
  shows "progressLog d1 = progressLog d"
proof (cases "progressFile d")
  case None
  with assms initialize_Inl [of now path d "int (length plan)"] show ?thesis
    by (auto simp: initializeProgressTracking_def split: sum.splits)
next
  case (Some data)
  with assms initialize_Inl [of now path d 0] initialize_Inr [of now path d 0] show ?thesis
    by (auto simp: initializeProgressTracking_def split: sum.splits)
qed

lemma initializeProgressTracking_Inr:
  assumes "initializeProgressTracking now path d plan = Inr (t, plan1)"
  shows "isInitialized t \<and> progressLog (files t) = progressLog d
         \<and> (\<forall>mid. progressRecords t mid = latestEntry (progressLog d) mid)
         \<and> map msgId plan1 = map msgId plan
         \<and> progressFile (files t) = Some (progressSummary t)
         \<and> (\<forall>data. progressFile d = Some data \<longrightarrow>
               progressSummary t = data \<and> files t = d
               \<and> (\<forall>m \<in> set plan1. (isMessageSuccessful t (msgId m) \<longrightarrow> status m = Sent)
                                   \<and> (isMessageFailed t (msgId m) \<longrightarrow> status m = Failed)))
         \<and> (progressFile d = None \<longrightarrow> plan1 = plan
               \<and> initialize now path d (int (length plan)) = Inr t)"
proof (cases "progressFile d")
  case None
  with assms have "initialize now path d (int (length plan)) = Inr t" "plan1 = plan"
    by (auto simp: initializeProgressTracking_def split: sum.splits)
  with initialize_Inr [OF this(1)] None show ?thesis by simp
next
  case (Some data)
  with assms have i: "initialize now path d 0 = Inr t"
    and s: "syncPlanWithProgress now t plan = Inr plan1"
    by (auto simp: initializeProgressTracking_def split: sum.splits)
  from initialize_Inr [OF i] syncPlanWithProgress_Inr [OF s] Some show ?thesis by simp
qed

lemma isMessageSuccessful_latestSent:
  "\<forall>mid. progressRecords t mid = latestEntry lg mid \<Longrightarrow>
     isMessageSuccessful t mid = latestSent lg mid"
  by (simp add: isMessageSuccessful_def latestSent_def)

lemma getMessagesToProcess_pending:
  "list_all (\<lambda>m. status m = Pending) plan \<Longrightarrow> getMessagesToProcess plan opts = plan"
  by (auto simp: getMessagesToProcess_def getUnprocessedMessages_def list_all_iff
      intro: map_idI)

lemma executeImport_all_sent:
  assumes "executeImport opts env plan imp = (imp', r)"
    and "tracking imp" and "0 \<le> clock imp" and "\<not> isPaused imp"
    and "isConnected imp \<or> dryRun opts"
    and "list_all (sendable (clock imp)) plan"
    and "dryRun opts \<or> (\<forall>k. \<exists>w. outcome (env k) = Delivered w)"
  shows "\<exists>new. appended imp imp' new \<and> tracking imp'
           \<and> map messageId new = map msgId plan
           \<and> (\<forall>rec \<in> set new. r_status rec = Sent)
           \<and> (\<exists>res. r = Inr res \<and> res_status res = RCompleted
                  \<and> res_successful res = int (length plan))
           \<and> messageCount (runtimeState imp') = messageCount (runtimeState imp) + int (length plan)
           \<and> dailyLimit (runtimeState imp') = dailyLimit (runtimeState imp)"
proof -
  from assms(6) have "list_all (\<lambda>m. status m = Pending) plan"
    by (simp add: list_all_iff sendable_def)
  from getMessagesToProcess_pending [OF this] have g: "getMessagesToProcess plan opts = plan" .
  show ?thesis
  proof (cases "plan = []")
    case True
    with assms(1,5) g have "imp' = imp"
      "r = Inr \<lparr>res_status = RCompleted, res_total = 0, res_processed = 0,
                res_successful = 0, res_failed = 0, res_skipped = 0, res_errors = []\<rparr>"
      by (auto simp: executeImport_def Let_def)
    with True assms(2) show ?thesis
      by (intro exI [of _ "[]"]) (simp add: appended_refl)
  next
    case False
    obtain imp1 ms1 r1 where pm: "processMessages opts env plan imp = (imp1, ms1, r1)"
      by (metis prod_cases3)
    let ?res0 = "\<lparr>res_status = RRunning, res_total = int (length plan), res_processed = 0,
              res_successful = 0, res_failed = 0, res_skipped = 0, res_errors = []\<rparr>"
    from processMessages_loop [OF pm] obtain r0 where
      pl: "processLoop opts env 0 plan imp ?res0 = (imp1, ms1, r0)"
      and fin: "\<forall>res. r0 = Inr res \<longrightarrow>
               r1 = Inr (if res_processed res = res_total res
                          then res\<lparr>res_status :=
                                 (if res_failed res = 0 then RCompleted else RCompletedWithErrors)\<rparr>
                        else res)"
      by blast
    have h: "dryRun opts \<or> (list_all (sendable (clock imp)) plan \<and> (\<forall>k. \<exists>w. outcome (env k) = Delivered w))"
      using assms(6,7) by blast
    from processLoop_all_sent [OF pl assms(2,3,4) h] obtain new where
      n: "appended imp imp1 new" "tracking imp1" "map messageId new = map msgId plan"
        "\<forall>rec \<in> set new. r_status rec = Sent"
        "r0 = Inr (?res0\<lparr>res_processed := res_processed ?res0 + int (length plan),
                           res_successful := res_successful ?res0 + int (length plan)\<rparr>)"
        "messageCount (runtimeState imp1) = messageCount (runtimeState imp) + int (length plan)"
        "dailyLimit (runtimeState imp1) = dailyLimit (runtimeState imp)"
      by blast
    from fin n(5) have r1: "\<exists>res. r1 = Inr res \<and> res_status res = RCompleted
                  \<and> res_successful res = int (length plan)"
      by simp
    with assms(1,5) g False pm have "imp' = imp1" "r = r1"
      by (auto simp: executeImport_def Let_def)
    with n r1 show ?thesis by (intro exI [of _ new]) simp
  qed
qed

lemma initialize_emptyDisk_ok:
  "0 \<le> n \<Longrightarrow> \<exists>t. initialize now path emptyDisk n = Inr t"
  by (simp add: initialize_def emptyDisk_def summary_create_def summary_fromData_def
      summary_validate_def)

lemma countStatus_all:
  "\<forall>rec \<in> set lg. r_status rec = st \<Longrightarrow> countStatus st lg = int (length lg)"
  by (simp add: countStatus_def)

lemma countStatus_none:
  "\<forall>rec \<in> set lg. r_status rec = st \<Longrightarrow> st \<noteq> st' \<Longrightarrow> countStatus st' lg = 0"
  by (induction lg) (auto simp: countStatus_def)

lemma latestEntry_in_log: "latestEntry lg mid = Some r \<Longrightarrow> r \<in> set lg"
  by (induction lg) (auto split: option.splits if_splits)

lemma latestEntry_found: "mid \<in> messageId ` set lg \<Longrightarrow> latestEntry lg mid \<noteq> None"
  by (induction lg) (auto split: option.splits)

lemma latestEntry_mem:
  "mid \<in> messageId ` set lg \<Longrightarrow> \<exists>r \<in> set lg. latestEntry lg mid = Some r"
  using latestEntry_found [of mid lg] latestEntry_in_log [of lg mid] by auto

lemma latestSent_all_sent:
  "\<forall>rec \<in> set lg. r_status rec = Sent \<Longrightarrow> mid \<in> messageId ` set lg \<Longrightarrow> latestSent lg mid"
  using latestEntry_mem [of mid lg] by (auto simp: latestSent_def)

section \<open>Resuming a run\<close>

text \<open>When \<^verbatim>\<open>progress.json\<close> exists and the run resumes, every entry the run appends to
  the log belongs to a job of the plan whose latest entry in the log was not \<open>sent\<close>.\<close>

lemma resumed_run_skips_sent:
  assumes "initializeProgressTracking now path d plan = Inr (t, plan1)"
    and "progressFile d = Some data" and "o_resume options \<or> processedMessages data > 0"
    and "isConnected imp \<or> o_dryRun options"
    and "cmd_executeImport options env (Some t) imp plan1 = (imp', r)"
  shows "\<exists>new. ledger imp' = progressLog d @ new
           \<and> (\<forall>rec \<in> set new. messageId rec \<in> msgId ` set plan
                 \<and> \<not> latestSent (progressLog d) (messageId rec))"
proof -
  note ip = initializeProgressTracking_Inr [OF assms(1)]
  let ?imp = "imp\<lparr>progressTracker := Some t\<rparr>"
  let ?opts = "\<lparr>dryRun = o_dryRun options, resume = True\<rparr>"
  let ?plan2 = "map (\<lambda>m. m\<lparr>chatId := targetChat options\<rparr>) plan1"
  from ip assms(2,3) have sr: "o_resume options \<or> (isInitialized t \<and> processedMessages (progressSummary t) > 0)"
    by auto
  obtain imp2 r2 where ei: "executeImport ?opts env ?plan2 ?imp = (imp2, r2)"
    by (cases "executeImport ?opts env ?plan2 ?imp")
  have sh: "(if o_resume options then (Inr True :: error + bool)
             else case Some t of
               None \<Rightarrow> Inr False
             | Some t \<Rightarrow>
                 if isInitialized t then Inr (processedMessages (progressSummary t) > 0)
                 else Inl (TypeError x)) = Inr True" for x
    using sr by auto
  from assms(5) have "(if \<not> isConnected imp \<and> \<not> o_dryRun options
               then (imp, Inl (Wrapped ''Import execution failed: '' NotConnected))
             else case executeImport ?opts env ?plan2 ?imp of
               (imp', Inl e) \<Rightarrow> (imp', Inl (Wrapped ''Import execution failed: '' e))
             | (imp', Inr res) \<Rightarrow> (imp', Inr res)) = (imp', r)"
    unfolding cmd_executeImport_def sh by (simp add: Let_def)
  with assms(4) ei have i': "imp' = imp2"
    by (cases r2) auto
  from executeImport_effect [OF ei] obtain new where
    n: "ledger imp2 = ledger ?imp @ new"
      "\<forall>rec \<in> set new. messageId rec \<in> msgId ` set (getMessagesToProcess ?plan2 ?opts)"
    by auto
  have lg: "ledger imp' = progressLog d @ new"
    using n(1) i' ip by (simp add: ledger_def)
  have ids2: "msgId ` set ?plan2 = msgId ` set plan"
  proof -
    have "map msgId ?plan2 = map msgId plan" using ip by (simp add: comp_def)
    then have "set (map msgId ?plan2) = set (map msgId plan)" by simp
    then show ?thesis unfolding set_map .
  qed
  have ids: "\<forall>rec \<in> set new. messageId rec \<in> msgId ` set plan"
    using n(2) getMessagesToProcess_ids [of ?plan2 ?opts] ids2 by blast
  have res: "\<forall>rec \<in> set new. \<not> latestSent (progressLog d) (messageId rec)"
  proof
    fix rec assume "rec \<in> set new"
    with n(2) obtain m where m: "m \<in> set (getMessagesToProcess ?plan2 ?opts)"
      "messageId rec = msgId m" by auto
    have "resume ?opts" by simp
    from getMessagesToProcess_resume [OF this m(1)] obtain m1 where
      m1: "m1 \<in> set plan1" "status m1 = Pending" "msgId m1 = msgId m" by auto
    from ip assms(2) m1 have "\<not> isMessageSuccessful t (msgId m1)" by auto
    with isMessageSuccessful_latestSent [of t "progressLog d" "msgId m1"] ip m1 m(2)
    show "\<not> latestSent (progressLog d) (messageId rec)" by simp
  qed
  from lg ids res show ?thesis by (intro exI [of _ new]) blast
qed

text \<open>
  C1. Whether a run resumes is decided from \<^verbatim>\<open>--resume\<close> and from the counter of
  \<^verbatim>\<open>progress.json\<close>, not from the ledger. On the files a crash leaves between the append
  of the first entry and the save of the summary, the ledger holds a \<open>sent\<close> entry for
  the job \<open>a1\<close> while the summary counts no processed job. The start-up rebuilds the
  status of \<open>a1\<close> as \<open>sent\<close>; \<^verbatim>\<open>_executeImport\<close>, called without \<^verbatim>\<open>--resume\<close>, does not
  resume; the importer resets every job to pending and sends \<open>a1\<close> a second time. The
  log ends with three \<open>sent\<close> entries for a plan of two jobs, two of them for \<open>a1\<close>.
  On the same files with the summary saved after the first entry, the same calls send the
  second job only.
\<close>

theorem resent_after_crash:
  "latestSent (progressLog disk_crash) ''a1''
   \<and> (\<exists>t plan1.
         initializeProgressTracking 60000 ''plan'' disk_crash plan_two = Inr (t, plan1)
         \<and> map (\<lambda>m. (msgId m, status m)) plan1 = [(''a1'', Sent), (''a2'', Pending)]
         \<and> processedMessages (progressSummary t) = 0
         \<and> map (\<lambda>r. (messageId r, r_status r, r_timestamp r))
              (ledger (fst (cmd_executeImport cli_plain delivering (Some t) importer_connected plan1)))
            = [(''a1'', Sent, 8000), (''a1'', Sent, 63005), (''a2'', Sent, 69010)]
         \<and> countStatus Sent
              (ledger (fst (cmd_executeImport cli_plain delivering (Some t) importer_connected plan1)))
            = 3
         \<and> snd (cmd_executeImport cli_plain delivering (Some t) importer_connected plan1)
            = Inr \<lparr>res_status = RCompleted, res_total = 2, res_processed = 2, res_successful = 2,
                   res_failed = 0, res_skipped = 0, res_errors = []\<rparr>)
   \<and> (\<exists>t plan1.
         initializeProgressTracking 60000 ''plan'' disk_one_sent plan_two = Inr (t, plan1)
         \<and> processedMessages (progressSummary t) = 1
         \<and> map (\<lambda>r. (messageId r, r_status r, r_timestamp r))
              (ledger (fst (cmd_executeImport cli_plain delivering (Some t) importer_connected plan1)))
            = [(''a1'', Sent, 8000), (''a2'', Sent, 63005)])"
  by (simp add: latestSent_def disk_crash_def disk_one_sent_def plan_two_def job_def
      entry_sent_def cli_plain_def delivering_def importer_connected_def newImporter_def
      ledger_def countStatus_def run_defs)

text \<open>
  C2. In the scenario of the claim, five jobs with the first two \<open>sent\<close> and the third
  \<open>failed\<close> in the ledger, the start-up leaves the third job with status \<open>failed\<close>, and
  the resumed run selects the pending jobs only. The entry of the third job can be retried
  (\<^verbatim>\<open>canRetry\<close>) and the state machine allows the job to be processed again, yet
  \<^verbatim>\<open>_executeImport\<close>, called with \<^verbatim>\<open>--resume\<close> and every send delivered, attempts the
  fourth and the fifth job and not the third: the log gets two new entries and the result
  counts two jobs.
\<close>

theorem resume_skips_failed_job:
  "(case initializeProgressTracking 60000 ''plan'' disk_five plan_five of
      Inl x \<Rightarrow> []
    | Inr (t, plan1) \<Rightarrow> map (\<lambda>m. (msgId m, status m)) plan1)
     = [(''j1'', Sent), (''j2'', Sent), (''j3'', Failed), (''j4'', Pending), (''j5'', Pending)]
   \<and> latestEntry (progressLog disk_five) ''j3'' = Some (entry_failed 30000 ''j3'')
   \<and> canRetry (entry_failed 30000 ''j3'')
   \<and> (\<exists>t plan1.
         initializeProgressTracking 60000 ''plan'' disk_five plan_five = Inr (t, plan1)
         \<and> canTransitionTo (plan1 ! 2) Processing
         \<and> map msgId (getMessagesToProcess plan1 \<lparr>dryRun = False, resume = True\<rparr>)
            = [''j4'', ''j5'']
         \<and> map (\<lambda>r. (messageId r, r_status r, r_timestamp r))
              (ledger (fst (cmd_executeImport cli_resume delivering (Some t) importer_connected plan1)))
            = [(''j1'', Sent, 10000), (''j2'', Sent, 20000), (''j3'', Failed, 30000),
               (''j4'', Sent, 63005), (''j5'', Sent, 69010)]
         \<and> snd (cmd_executeImport cli_resume delivering (Some t) importer_connected plan1)
            = Inr \<lparr>res_status = RCompleted, res_total = 2, res_processed = 2, res_successful = 2,
                   res_failed = 0, res_skipped = 0, res_errors = []\<rparr>)"
  by (simp add: disk_five_def plan_five_def job_def entry_sent_def entry_failed_def
      cli_resume_def delivering_def canRetry_def importer_connected_def newImporter_def
      ledger_def run_defs)

section \<open>Errors of the channel\<close>

text \<open>
  C3. In a run with an initialised ledger that is not paused, no error of a send stops
  the loop or reaches the caller, whatever its scope: \<^verbatim>\<open>_processSingleMessage\<close> catches
  every error of the send in one \<^verbatim>\<open>catch\<close> block. The executor returns a result, and the
  log receives exactly one entry for every selected job, in the order of the jobs; in a
  run that is not a dry run the entry of a job whose send the channel rejected, with an
  error scoped to the job or to the connection, is a \<open>failed\<close> entry. The stop of the
  loop, the summary status \<open>failed\<close> and the error thrown to the caller, which the
  \<^verbatim>\<open>catch\<close> of \<^verbatim>\<open>executeImport\<close> provides, are never reached by an error of a send.
\<close>

theorem send_errors_are_per_job:
  assumes "tracking imp" and "0 \<le> clock imp" and "\<not> isPaused imp"
  shows "(\<exists>res. snd (snd (processMessages opts env msgs imp)) = Inr res)
         \<and> (\<exists>new. ledger (fst (processMessages opts env msgs imp)) = ledger imp @ new
                \<and> map messageId new = map msgId msgs
                \<and> (\<forall>k < length msgs. \<not> dryRun opts \<longrightarrow>
                      (\<exists>sc s. outcome (env k) = Rejected sc s) \<longrightarrow> r_status (new ! k) = Failed))"
proof -
  obtain imp' ms' r where pm: "processMessages opts env msgs imp = (imp', ms', r)"
    by (metis prod_cases3)
  from processMessages_loop [OF pm] obtain r0 where
    pl: "processLoop opts env 0 msgs imp
             \<lparr>res_status = RRunning, res_total = int (length msgs), res_processed = 0,
              res_successful = 0, res_failed = 0, res_skipped = 0, res_errors = []\<rparr>
           = (imp', ms', r0)"
    and fin: "\<forall>res. r0 = Inr res \<longrightarrow> (\<exists>res'. r = Inr res')"
    by auto
  from processLoop_tracked [OF pl assms] obtain new res' where
    n: "appended imp imp' new" "r0 = Inr res'" "map messageId new = map msgId msgs"
      "\<forall>k < length msgs. \<not> dryRun opts \<longrightarrow>
          (\<exists>sc s. outcome (env (0 + k)) = Rejected sc s) \<longrightarrow> r_status (new ! k) = Failed"
    by blast
  from n(1) have l: "ledger imp' = ledger imp @ new" by (simp add: appended_def)
  from fin n(2) have "\<exists>res. r = Inr res" by simp
  with pm have A: "\<exists>res. snd (snd (processMessages opts env msgs imp)) = Inr res" by simp
  from n(4) have n4: "\<forall>k < length msgs. \<not> dryRun opts \<longrightarrow>
          (\<exists>sc s. outcome (env k) = Rejected sc s) \<longrightarrow> r_status (new ! k) = Failed" by simp
  from l pm have "ledger (fst (processMessages opts env msgs imp)) = ledger imp @ new" by simp
  with n(3) n4 have B: "\<exists>new. ledger (fst (processMessages opts env msgs imp)) = ledger imp @ new
                \<and> map messageId new = map msgId msgs
                \<and> (\<forall>k < length msgs. \<not> dryRun opts \<longrightarrow>
                      (\<exists>sc s. outcome (env k) = Rejected sc s) \<longrightarrow> r_status (new ! k) = Failed)"
    by (intro exI [of _ new]) simp
  from A B show ?thesis ..
qed

theorem send_errors_are_per_job_witness:
  "tracking (importer_new 2) \<and> 0 \<le> clock (importer_new 2) \<and> \<not> isPaused (importer_new 2)
   \<and> outcome (connection_lost_first 0) = Rejected ConnectionScoped ''Session closed''
   \<and> (\<exists>res. snd (snd (processMessages opts_real connection_lost_first plan_two (importer_new 2)))
          = Inr res)
   \<and> (\<exists>new. ledger (fst (processMessages opts_real connection_lost_first plan_two (importer_new 2)))
                = ledger (importer_new 2) @ new
          \<and> map messageId new = [''a1'', ''a2''] \<and> r_status (new ! 0) = Failed)"
proof -
  have h: "tracking (importer_new 2)" "0 \<le> clock (importer_new 2)" "\<not> isPaused (importer_new 2)"
    by (simp_all add: importer_new_def tracking_def tracker_new_def)
  have o: "outcome (connection_lost_first 0) = Rejected ConnectionScoped ''Session closed''"
    by (simp add: connection_lost_first_def)
  note inst = send_errors_are_per_job [OF h, of opts_real connection_lost_first plan_two]
  note r = inst [THEN conjunct1]
  from inst [THEN conjunct2] obtain new where
    n: "ledger (fst (processMessages opts_real connection_lost_first plan_two (importer_new 2)))
                = ledger (importer_new 2) @ new"
      "map messageId new = map msgId plan_two"
      "\<forall>k < length plan_two. \<not> dryRun opts_real \<longrightarrow>
          (\<exists>sc s. outcome (connection_lost_first k) = Rejected sc s) \<longrightarrow> r_status (new ! k) = Failed"
    by (elim exE conjE)
  have "0 < length plan_two" "\<not> dryRun opts_real"
    by (simp_all add: plan_two_def opts_real_def)
  with n(3) o have f: "r_status (new ! 0) = Failed" by blast
  from n(2) have m: "map messageId new = [''a1'', ''a2'']"
    by (simp add: plan_two_def job_def)
  from n(1) m f have "\<exists>new. ledger (fst (processMessages opts_real connection_lost_first plan_two (importer_new 2)))
                = ledger (importer_new 2) @ new
          \<and> map messageId new = [''a1'', ''a2''] \<and> r_status (new ! 0) = Failed"
    by (intro exI [of _ new]) simp
  with h o r show ?thesis by (intro conjI)
qed

text \<open>On a plan of two jobs whose first send meets a lost connection, the error is
  recorded as the failure of the first job, the second job is attempted and delivered, the
  result is returned with status \<open>completed_with_errors\<close> and the summary ends
  \<open>completed\<close>.\<close>

theorem connection_error_recorded_and_run_continues:
  "outcome (connection_lost_first 0) = Rejected ConnectionScoped ''Session closed''
   \<and> snd (executeImport opts_real connection_lost_first plan_two (importer_new 2))
     = Inr \<lparr>res_status = RCompletedWithErrors, res_total = 2, res_processed = 2,
            res_successful = 1, res_failed = 1, res_skipped = 0,
            res_errors = [(''a1'', Some ''Session closed'')]\<rparr>
   \<and> map_option files
        (progressTracker (fst (executeImport opts_real connection_lost_first plan_two
           (importer_new 2))))
     = Some \<lparr>progressFile =
           Some \<lparr>planPath = ''plan'', startedAt = 1000, lastUpdated = 11010,
                 totalMessages = 2, processedMessages = 2, successfulMessages = 1,
                 failedMessages = 1, currentPosition = 2, s_status = Completed\<rparr>,
         progressLog =
           [\<lparr>messageId = ''a1'', r_telegramId = 1, r_status = Failed, r_timestamp = 8005,
              r_errorMessage = Some ''Session closed'', retryCount = 1, sentMessageId = None\<rparr>,
            \<lparr>messageId = ''a2'', r_telegramId = 2, r_status = Sent, r_timestamp = 11010,
              r_errorMessage = None, retryCount = 0, sentMessageId = Some ''wa''\<rparr>]\<rparr>"
  by (simp add: plan_two_def job_def opts_real_def connection_lost_first_def importer_new_def
      tracker_new_def run_defs)

section \<open>The daily limit\<close>

lemma plan_big_sendable: "list_all (sendable (clock (importer_new 1001))) plan_big"
  by (simp add: plan_big_def list_all_iff importer_new_def job_def sendable_def)

text \<open>
  C4. The executor never consults the daily limit. \<^verbatim>\<open>_waitForRateLimit\<close> calls
  \<^verbatim>\<open>getRequiredWaitTime\<close> only, which reads the time of the last send and not the counter,
  and \<^verbatim>\<open>canSendMessage\<close>, the one function that compares \<open>messageCount\<close> with
  \<open>dailyLimit\<close>, has no caller in the run. So in a run with an initialised ledger, not
  paused, over pending jobs whose sends are all delivered, every job of the plan is
  attempted and recorded as \<open>sent\<close> whatever the counter and the limit are: the result
  is \<open>completed\<close>, the counter grows by the number of jobs, the limit is unchanged, and
  when the counter has reached the limit \<^verbatim>\<open>canSendMessage\<close> answers no at every later time
  while the run has sent all the same. The claimed stop with status \<open>failed\<close> does not
  exist.
\<close>

theorem daily_ceiling_not_enforced:
  assumes "tracking imp" and "0 \<le> clock imp" and "\<not> isPaused imp"
    and "isConnected imp \<or> dryRun opts"
    and "list_all (sendable (clock imp)) plan"
    and "dryRun opts \<or> (\<forall>k. \<exists>w. outcome (env k) = Delivered w)"
  shows "(\<exists>new. ledger (fst (executeImport opts env plan imp)) = ledger imp @ new
            \<and> map messageId new = map msgId plan
            \<and> countStatus Sent new = int (length plan))
         \<and> (\<exists>res. snd (executeImport opts env plan imp) = Inr res
                \<and> res_status res = RCompleted \<and> res_successful res = int (length plan))
         \<and> messageCount (runtimeState (fst (executeImport opts env plan imp)))
             = messageCount (runtimeState imp) + int (length plan)
         \<and> dailyLimit (runtimeState (fst (executeImport opts env plan imp)))
             = dailyLimit (runtimeState imp)
         \<and> (if dailyLimit (runtimeState imp) \<le> messageCount (runtimeState imp) + int (length plan)
             then \<not> canSendMessage now (config imp)
                      (runtimeState (fst (executeImport opts env plan imp)))
             else True)"
proof -
  obtain imp' r where ei: "executeImport opts env plan imp = (imp', r)"
    by (cases "executeImport opts env plan imp")
  from executeImport_all_sent [OF ei assms] obtain new where
    n: "appended imp imp' new" "map messageId new = map msgId plan"
      "\<forall>rec \<in> set new. r_status rec = Sent"
      "\<exists>res. r = Inr res \<and> res_status res = RCompleted \<and> res_successful res = int (length plan)"
      "messageCount (runtimeState imp') = messageCount (runtimeState imp) + int (length plan)"
      "dailyLimit (runtimeState imp') = dailyLimit (runtimeState imp)"
    by blast
  from n(1) have l: "ledger imp' = ledger imp @ new" by (simp add: appended_def)
  from n(2) have "length new = length plan" by (metis length_map)
  with countStatus_all [OF n(3)] have c: "countStatus Sent new = int (length plan)" by simp
  from l n(2) c have A: "\<exists>new. ledger imp' = ledger imp @ new
            \<and> map messageId new = map msgId plan
            \<and> countStatus Sent new = int (length plan)"
    by (intro exI [of _ new]) simp
  have E: "if dailyLimit (runtimeState imp) \<le> messageCount (runtimeState imp) + int (length plan)
             then \<not> canSendMessage now (config imp) (runtimeState imp')
             else True"
    using n(5,6) by (simp add: canSendMessage_def)
  from A n(4,5,6) E show ?thesis unfolding ei by simp
qed

text \<open>A run over 1001 jobs with the default limit of 1000 sends the 1001 jobs.\<close>

theorem daily_ceiling_not_enforced_witness:
  "tracking (importer_new 1001) \<and> 0 \<le> clock (importer_new 1001)
   \<and> \<not> isPaused (importer_new 1001) \<and> isConnected (importer_new 1001)
   \<and> list_all (sendable (clock (importer_new 1001))) plan_big
   \<and> dailyLimit (runtimeState (importer_new 1001)) = 1000
   \<and> messageCount (runtimeState (importer_new 1001)) = 0
   \<and> (\<exists>res. snd (executeImport opts_real delivering plan_big (importer_new 1001)) = Inr res
          \<and> res_status res = RCompleted \<and> res_successful res = 1001)
   \<and> messageCount (runtimeState (fst (executeImport opts_real delivering plan_big (importer_new 1001))))
       = 1001
   \<and> \<not> canSendMessage 99999999 (config (importer_new 1001))
         (runtimeState (fst (executeImport opts_real delivering plan_big (importer_new 1001))))"
proof -
  have h: "tracking (importer_new 1001)" "0 \<le> clock (importer_new 1001)"
    "\<not> isPaused (importer_new 1001)" "isConnected (importer_new 1001) \<or> dryRun opts_real"
    by (simp_all add: importer_new_def tracking_def tracker_new_def)
  have c: "isConnected (importer_new 1001)" by (simp add: importer_new_def)
  have d: "dryRun opts_real \<or> (\<forall>k. \<exists>w. outcome (delivering k) = Delivered w)"
    by (simp add: delivering_def)
  have rs: "dailyLimit (runtimeState (importer_new 1001)) = 1000"
    "messageCount (runtimeState (importer_new 1001)) = 0"
    by (simp_all add: importer_new_def newRuntimeState_def)
  have len: "int (length plan_big) = 1001" by (simp add: plan_big_def)
  note inst = daily_ceiling_not_enforced [OF h plan_big_sendable d, of 99999999]
  note R = inst [THEN conjunct2, THEN conjunct1, unfolded len]
  note M = inst [THEN conjunct2, THEN conjunct2, THEN conjunct1, unfolded len rs]
  from inst [THEN conjunct2, THEN conjunct2, THEN conjunct2, THEN conjunct2] rs len
  have S: "\<not> canSendMessage 99999999 (config (importer_new 1001))
         (runtimeState (fst (executeImport opts_real delivering plan_big (importer_new 1001))))"
    by simp
  from M have M': "messageCount (runtimeState (fst (executeImport opts_real delivering plan_big (importer_new 1001))))
       = 1001" by simp
  from h(1,2,3) c plan_big_sendable rs R M' S show ?thesis by (intro conjI)
qed


section \<open>The pace of the sends\<close>

lemma processSingleMessage_clock_upper:
  assumes "processSingleMessage opts env imp m = (imp2, m', sr)"
  shows "clock imp2 \<le> clock imp + int (sendTime env)"
  using assms
  by (auto simp: processSingleMessage_def singleMessageFailed_def Let_def
      split: prod.splits sum.splits send_outcome.splits if_splits)

lemma recordOutcome_clock:
  "recordOutcome imp m st err sid = Inr imp' \<Longrightarrow> clock imp' = clock imp"
  using recordOutcome_Inr [of imp m st err sid imp'] by blast

lemma tryMessage_clock_upper:
  assumes "tryMessage opts env imp res m = (imp', res', m', eo)"
  shows "clock imp' \<le> clock (waitForRateLimit (rnd env) imp) + int (sendTime env)"
proof -
  let ?imp1 = "waitForRateLimit (rnd env) imp"
  obtain imp2 m2 sr where ps: "processSingleMessage opts env ?imp1 m = (imp2, m2, sr)"
    by (metis prod_cases3)
  note u = processSingleMessage_clock_upper [OF ps]
  show ?thesis
  proof (cases sr)
    case (Inl e)
    with assms ps have "imp' = imp2" by (simp add: tryMessage_def Let_def)
    with u show ?thesis by simp
  next
    case (Inr mr)
    let ?ro = "recordOutcome imp2 m2 (if success mr then Sent else Failed)
                 (or_null (sr_error mr)) (or_null (whatsappMessageId mr))"
    show ?thesis
    proof (cases ?ro)
      case (Inl e)
      with assms ps \<open>sr = Inr mr\<close> have "imp' = imp2" by (simp add: tryMessage_def Let_def)
      with u show ?thesis by simp
    next
      case (Inr imp3)
      from recordOutcome_clock [OF Inr] have c3: "clock imp3 = clock imp2" .
      from assms ps \<open>sr = Inr mr\<close> Inr have "clock imp' = clock imp3"
        by (auto simp: tryMessage_def Let_def split: if_splits)
      with c3 u show ?thesis by simp
    qed
  qed
qed

lemma processOne_clock_upper:
  assumes "processOne opts env imp res m = (imp', m', r)"
  shows "clock imp' \<le> clock (waitForRateLimit (rnd env) imp) + int (sendTime env)"
proof -
  obtain impt rest mt eo where tm: "tryMessage opts env imp res m = (impt, rest, mt, eo)"
    by (metis prod_cases4)
  note u = tryMessage_clock_upper [OF tm]
  show ?thesis
  proof (cases eo)
    case None
    with assms tm have "imp' = impt" by (simp add: processOne_def)
    with u show ?thesis by simp
  next
    case (Some e)
    let ?ro = "recordOutcome impt mt Failed (Some (error_message e)) None"
    show ?thesis
    proof (cases ?ro)
      case (Inl e')
      with assms tm Some have "imp' = impt" by (simp add: processOne_def Let_def)
      with u show ?thesis by simp
    next
      case (Inr imp3)
      with assms tm Some have "imp' = imp3" by (simp add: processOne_def Let_def)
      with recordOutcome_clock [OF Inr] u show ?thesis by simp
    qed
  qed
qed

lemma waitForRateLimit_clock:
  assumes "0 \<le> sleepMin (config imp)" "sleepMin (config imp) \<le> sleepMax (config imp)" "0 \<le> u"
  shows "clock (waitForRateLimit u imp)
           = clock imp
             + max 0 (sleepMin (config imp) * 1000 - (clock imp - lastMessageTime (runtimeState imp)))
             + getRandomSleepDuration (config imp) u * 1000"
proof -
  from getRandomSleepDuration_lower [OF assms(3,2)] assms(1)
  have "0 \<le> getRandomSleepDuration (config imp) u * 1000" by simp
  then show ?thesis by (simp add: waitForRateLimit_eq getRequiredWaitTime_def)
qed

lemma processOne_tracked:
  assumes "processOne opts env imp res m = (imp', m', r)" and "tracking imp" and "0 \<le> clock imp"
  shows "\<exists>rec. appended imp imp' [rec] \<and> entry_for m (clock imp') rec \<and> tracking imp'
           \<and> (r_status rec = Sent) = attempt_succeeds opts env imp m
           \<and> runtimeState imp'
               = (if attempt_succeeds opts env imp m
                    then updateRateLimit (clock imp') (runtimeState imp)
                  else runtimeState imp)
           \<and> (\<exists>res'. r = Inr res')"
proof -
  from processOne_effect [OF assms(1)] assms(2,3) obtain new where
    e: "appended imp imp' new"
      "new = [] \<or> (\<exists>rec. new = [rec] \<and> entry_for m (clock imp') rec \<and> tracking imp'
                    \<and> (r_status rec = Sent) = attempt_succeeds opts env imp m)"
      "runtimeState imp' = runtimeState imp
         \<or> runtimeState imp' = updateRateLimit (clock imp') (runtimeState imp)
            \<and> attempt_succeeds opts env imp m"
      "\<exists>res'. r = Inr res'" "new \<noteq> []"
      "attempt_succeeds opts env imp m \<longrightarrow>
          runtimeState imp' = updateRateLimit (clock imp') (runtimeState imp)"
    by blast
  from e(2,5) obtain rec where rec: "new = [rec]" "entry_for m (clock imp') rec" "tracking imp'"
    "(r_status rec = Sent) = attempt_succeeds opts env imp m" by blast
  from e(3,6) have rs: "runtimeState imp'
               = (if attempt_succeeds opts env imp m
                    then updateRateLimit (clock imp') (runtimeState imp)
                  else runtimeState imp)" by auto
  from e(1) rec rs e(4) show ?thesis by (intro exI [of _ rec]) simp
qed

lemma processLoop_paced:
  assumes "processLoop opts env i msgs imp res = (imp', ms', r)"
    and "tracking imp" and "0 \<le> clock imp" and "\<not> isPaused imp"
    and "0 \<le> sleepMin (config imp)" and "sleepMin (config imp) \<le> sleepMax (config imp)"
    and "\<forall>k. 0 \<le> rnd (env k)"
  shows "\<exists>new. appended imp imp' new
           \<and> map messageId new = map msgId msgs
           \<and> paced (config imp) env i (clock imp) (lastMessageTime (runtimeState imp)) new
           \<and> lastMessageTime (runtimeState imp') = lastSend (lastMessageTime (runtimeState imp)) new
           \<and> messageCount (runtimeState imp') = messageCount (runtimeState imp) + countStatus Sent new
           \<and> clock imp' = last (clock imp # map r_timestamp new)"
  using assms
proof (induction msgs arbitrary: i imp res imp' ms' r)
  case Nil
  then show ?case by (auto intro: exI [of _ "[]"] simp: appended_refl countStatus_def)
next
  case (Cons m ms)
  obtain imp1 m1 r1 where po: "processOne opts (env i) imp res m = (imp1, m1, r1)"
    by (metis prod_cases3)
  from processOne_tracked [OF po Cons.prems(2,3)] obtain rec res1 where
    e1: "appended imp imp1 [rec]" "entry_for m (clock imp1) rec" "tracking imp1"
      "(r_status rec = Sent) = attempt_succeeds opts (env i) imp m"
      "runtimeState imp1
         = (if attempt_succeeds opts (env i) imp m
              then updateRateLimit (clock imp1) (runtimeState imp)
            else runtimeState imp)"
      "r1 = Inr res1"
    by blast
  from Cons.prems(7) have u0: "0 \<le> rnd (env i)" by simp
  note w = waitForRateLimit_clock [OF Cons.prems(5,6) u0]
  from processOne_effect [OF po] have lo: "clock (waitForRateLimit (rnd (env i)) imp) \<le> clock imp1"
    by blast
  note up = processOne_clock_upper [OF po]
  have ck0: "clock imp \<le> clock (waitForRateLimit (rnd (env i)) imp)"
    by (rule waitForRateLimit_clock_mono)
  with lo Cons.prems(3) have ck1: "0 \<le> clock imp1" by simp
  have np: "\<not> isPaused imp1" using appended_tracking_paused [OF e1(1)] Cons.prems(4) by simp
  from appended_config [OF e1(1)] have cf: "config imp1 = config imp" by simp
  from e1(2) have ts: "r_timestamp rec = clock imp1" "messageId rec = msgId m"
    by (simp_all add: entry_for_def)
  obtain imp2 ms2 r2 where pl: "processLoop opts env (Suc i) ms imp1 res1 = (imp2, ms2, r2)"
    by (metis prod_cases3)
  with Cons.prems po e1(6) have r: "imp' = imp2" by simp
  from Cons.IH [OF pl e1(3) ck1 np] Cons.prems(5,6,7) cf obtain new2 where
    e2: "appended imp1 imp2 new2" "map messageId new2 = map msgId ms"
      "paced (config imp) env (Suc i) (clock imp1) (lastMessageTime (runtimeState imp1)) new2"
      "lastMessageTime (runtimeState imp2) = lastSend (lastMessageTime (runtimeState imp1)) new2"
      "messageCount (runtimeState imp2) = messageCount (runtimeState imp1) + countStatus Sent new2"
      "clock imp2 = last (clock imp1 # map r_timestamp new2)"
    by auto
  have l1: "lastMessageTime (runtimeState imp1)
              = (if r_status rec = Sent then r_timestamp rec else lastMessageTime (runtimeState imp))"
    using e1(4,5) ts by (simp add: updateRateLimit_def)
  have c1: "messageCount (runtimeState imp1)
              = messageCount (runtimeState imp) + (if r_status rec = Sent then 1 else 0)"
    using e1(4,5) by (simp add: updateRateLimit_def)
  have P: "paced (config imp) env i (clock imp) (lastMessageTime (runtimeState imp)) (rec # new2)"
    using e2(3) l1 ts lo up w by simp
  have L: "lastMessageTime (runtimeState imp2)
             = lastSend (lastMessageTime (runtimeState imp)) (rec # new2)"
    using e2(4) l1 by simp
  have C: "messageCount (runtimeState imp2)
             = messageCount (runtimeState imp) + countStatus Sent (rec # new2)"
    using e2(5) c1 by (simp add: countStatus_def)
  have K: "clock imp2 = last (clock imp # map r_timestamp (rec # new2))"
    using e2(6) ts by simp
  from appended_trans [OF e1(1) e2(1)] have A: "appended imp imp2 (rec # new2)" by simp
  from e2(2) ts have M: "map messageId (rec # new2) = map msgId (m # ms)" by simp
  from A M P L C K r show ?case by (intro exI [of _ "rec # new2"]) simp
qed

text \<open>
  C8. Time is the clock of the model: \<^verbatim>\<open>_sleep\<close> advances it by the delay asked for, and
  \<^verbatim>\<open>Math.random\<close> is a number \<open>u\<close> with \<open>0 \<le> u < 1\<close>. For a sleep range with
  \<open>0 \<le> min \<le> max\<close>: before each attempt the wait is
  \<open>max 0 (min * 1000 - (now - lastMessageTime))\<close> followed by a random delay of
  \<open>d * 1000\<close> with \<open>min \<le> d \<le> max\<close>, and every whole \<open>d\<close> of that range is drawn by
  some \<open>u\<close>; the attempt returns after the wait and no later than the duration of the
  send after it; one iteration leaves \<open>lastMessageTime\<close> unchanged unless the attempt
  succeeded, and with an initialised ledger it sets \<open>lastMessageTime\<close> to the time
  after the attempt, and counts the send, exactly when the attempt succeeded. In every run
  of the loop the times of the entries appended to the log, and so those of the \<open>sent\<close>
  entries among them, are at least \<open>min * 1000\<close> milliseconds apart, the first one that
  much after the start of the loop. In a run with an initialised ledger that is not paused
  the log gets one entry for every job, written at the pace \<open>paced\<close> describes: each
  after the wait computed from the time of the latest \<open>sent\<close> entry before it, or from
  the \<open>lastMessageTime\<close> the run started with; and the run ends with
  \<open>lastMessageTime\<close> at the time of the latest \<open>sent\<close> entry.
\<close>

theorem pacing_floor:
  assumes "0 \<le> sleepMin (config imp)" and "sleepMin (config imp) \<le> sleepMax (config imp)"
    and "\<forall>k. 0 \<le> rnd (env k) \<and> rnd (env k) < 1"
  shows "clock (waitForRateLimit (rnd (env i)) imp)
           = clock imp
             + max 0 (sleepMin (config imp) * 1000 - (clock imp - lastMessageTime (runtimeState imp)))
             + getRandomSleepDuration (config imp) (rnd (env i)) * 1000
         \<and> sleepMin (config imp) \<le> getRandomSleepDuration (config imp) (rnd (env i))
         \<and> getRandomSleepDuration (config imp) (rnd (env i)) \<le> sleepMax (config imp)
         \<and> (lastMessageTime (runtimeState (fst (processOne opts (env i) imp res m)))
               = lastMessageTime (runtimeState imp)
             \<or> attempt_succeeds opts (env i) imp m
               \<and> lastMessageTime (runtimeState (fst (processOne opts (env i) imp res m)))
                   = clock (fst (processOne opts (env i) imp res m)))
         \<and> (\<exists>new. ledger (fst (processMessages opts env msgs imp)) = ledger imp @ new
                \<and> spaced_from (sleepMin (config imp) * 1000) (clock imp) (map r_timestamp new)
                \<and> spaced_from (sleepMin (config imp) * 1000) (clock imp)
                     (map r_timestamp (filter (\<lambda>r. r_status r = Sent) new)))
         \<and> (\<forall>d. sleepMin (config imp) \<le> d \<and> d \<le> sleepMax (config imp) \<longrightarrow>
                (\<exists>u. 0 \<le> u \<and> u < 1 \<and> getRandomSleepDuration (config imp) u = d))
         \<and> clock (waitForRateLimit (rnd (env i)) imp) \<le> clock (fst (processOne opts (env i) imp res m))
         \<and> clock (fst (processOne opts (env i) imp res m))
             \<le> clock (waitForRateLimit (rnd (env i)) imp) + int (sendTime (env i))
         \<and> (tracking imp \<and> 0 \<le> clock imp \<longrightarrow>
               lastMessageTime (runtimeState (fst (processOne opts (env i) imp res m)))
                 = (if attempt_succeeds opts (env i) imp m
                      then clock (fst (processOne opts (env i) imp res m))
                    else lastMessageTime (runtimeState imp))
             \<and> messageCount (runtimeState (fst (processOne opts (env i) imp res m)))
                 = messageCount (runtimeState imp)
                   + (if attempt_succeeds opts (env i) imp m then 1 else 0))
         \<and> (tracking imp \<and> 0 \<le> clock imp \<and> \<not> isPaused imp \<longrightarrow>
               (\<exists>new. ledger (fst (processMessages opts env msgs imp)) = ledger imp @ new
                  \<and> map messageId new = map msgId msgs
                  \<and> paced (config imp) env 0 (clock imp) (lastMessageTime (runtimeState imp)) new
                  \<and> lastMessageTime (runtimeState (fst (processMessages opts env msgs imp)))
                      = lastSend (lastMessageTime (runtimeState imp)) new
                  \<and> messageCount (runtimeState (fst (processMessages opts env msgs imp)))
                      = messageCount (runtimeState imp) + countStatus Sent new))"
proof -
  from assms(3) have u: "0 \<le> rnd (env i)" "rnd (env i) < 1" by simp_all
  note lo = getRandomSleepDuration_lower [OF u(1) assms(2)]
  note up = getRandomSleepDuration_upper [OF u(2) assms(2)]
  from lo assms(1) have "0 \<le> getRandomSleepDuration (config imp) (rnd (env i)) * 1000" by simp
  then have A: "clock (waitForRateLimit (rnd (env i)) imp)
           = clock imp
             + max 0 (sleepMin (config imp) * 1000 - (clock imp - lastMessageTime (runtimeState imp)))
             + getRandomSleepDuration (config imp) (rnd (env i)) * 1000"
    by (simp add: waitForRateLimit_eq getRequiredWaitTime_def)
  obtain imp1 m1 r1 where po: "processOne opts (env i) imp res m = (imp1, m1, r1)"
    by (metis prod_cases3)
  from processOne_effect [OF po]
  have rs: "runtimeState imp1 = runtimeState imp
        \<or> runtimeState imp1 = updateRateLimit (clock imp1) (runtimeState imp)
          \<and> attempt_succeeds opts (env i) imp m"
    and cl: "clock (waitForRateLimit (rnd (env i)) imp) \<le> clock imp1" by blast+
  from rs have "lastMessageTime (runtimeState imp1) = lastMessageTime (runtimeState imp)
             \<or> attempt_succeeds opts (env i) imp m
               \<and> lastMessageTime (runtimeState imp1) = clock imp1"
    by (auto simp: updateRateLimit_def)
  with po have B: "lastMessageTime (runtimeState (fst (processOne opts (env i) imp res m)))
               = lastMessageTime (runtimeState imp)
             \<or> attempt_succeeds opts (env i) imp m
               \<and> lastMessageTime (runtimeState (fst (processOne opts (env i) imp res m)))
                   = clock (fst (processOne opts (env i) imp res m))"
    by simp
  obtain imp' ms' r where pm: "processMessages opts env msgs imp = (imp', ms', r)"
    by (metis prod_cases3)
  from processMessages_loop [OF pm] obtain r0 where
    pl: "processLoop opts env 0 msgs imp
             \<lparr>res_status = RRunning, res_total = int (length msgs), res_processed = 0,
              res_successful = 0, res_failed = 0, res_skipped = 0, res_errors = []\<rparr>
           = (imp', ms', r0)"
    by blast
  from assms(3) have nn: "\<forall>k. 0 \<le> rnd (env k)" by simp
  from processLoop_spaced [OF pl assms(2) nn] obtain new where
    n: "appended imp imp' new"
      "spaced_from (sleepMin (config imp) * 1000) (clock imp) (map r_timestamp new)"
    by blast
  from assms(1) have d: "0 \<le> sleepMin (config imp) * 1000" by simp
  note f = spaced_from_filter [OF d n(2), of "\<lambda>r. r_status r = Sent"]
  from n(1) have "ledger imp' = ledger imp @ new" by (simp add: appended_def)
  with pm have "ledger (fst (processMessages opts env msgs imp)) = ledger imp @ new" by simp
  with n(2) f have C: "\<exists>new. ledger (fst (processMessages opts env msgs imp)) = ledger imp @ new
                \<and> spaced_from (sleepMin (config imp) * 1000) (clock imp) (map r_timestamp new)
                \<and> spaced_from (sleepMin (config imp) * 1000) (clock imp)
                     (map r_timestamp (filter (\<lambda>r. r_status r = Sent) new))"
    by (intro exI [of _ new]) simp
  have D: "\<forall>d. sleepMin (config imp) \<le> d \<and> d \<le> sleepMax (config imp) \<longrightarrow>
                (\<exists>u. 0 \<le> u \<and> u < 1 \<and> getRandomSleepDuration (config imp) u = d)"
  proof (intro allI impI)
    fix d assume "sleepMin (config imp) \<le> d \<and> d \<le> sleepMax (config imp)"
    then have dd: "sleepMin (config imp) \<le> d" "d \<le> sleepMax (config imp)" by simp_all
    define n where "n = sleepMax (config imp) - sleepMin (config imp) + 1"
    define k where "k = d - sleepMin (config imp)"
    from dd have n: "0 < n" and k: "0 \<le> k" "k < n" by (simp_all add: n_def k_def)
    then have nz: "(of_int n :: rat) \<noteq> 0" by simp
    have a: "0 \<le> (of_int k / of_int n :: rat)" using k n by simp
    have b: "(of_int k / of_int n :: rat) < 1" using k n by simp
    have "(of_int k / of_int n :: rat) * of_int n = of_int k" using nz by simp
    then have "\<lfloor>(of_int k / of_int n :: rat) * of_int n\<rfloor> = k" by simp
    then have c: "getRandomSleepDuration (config imp) (of_int k / of_int n) = d"
      by (simp add: getRandomSleepDuration_def n_def [symmetric]) (simp add: k_def)
    from a b c show "\<exists>u. 0 \<le> u \<and> u < 1 \<and> getRandomSleepDuration (config imp) u = d"
      by blast
  qed
  from cl po have E: "clock (waitForRateLimit (rnd (env i)) imp)
                        \<le> clock (fst (processOne opts (env i) imp res m))" by simp
  from processOne_clock_upper [OF po] po
  have F: "clock (fst (processOne opts (env i) imp res m))
             \<le> clock (waitForRateLimit (rnd (env i)) imp) + int (sendTime (env i))" by simp
  have G: "tracking imp \<and> 0 \<le> clock imp \<longrightarrow>
               lastMessageTime (runtimeState (fst (processOne opts (env i) imp res m)))
                 = (if attempt_succeeds opts (env i) imp m
                      then clock (fst (processOne opts (env i) imp res m))
                    else lastMessageTime (runtimeState imp))
             \<and> messageCount (runtimeState (fst (processOne opts (env i) imp res m)))
                 = messageCount (runtimeState imp)
                   + (if attempt_succeeds opts (env i) imp m then 1 else 0)"
  proof
    assume "tracking imp \<and> 0 \<le> clock imp"
    then have t: "tracking imp" "0 \<le> clock imp" by simp_all
    from processOne_tracked [OF po t]
    have "runtimeState imp1
               = (if attempt_succeeds opts (env i) imp m
                    then updateRateLimit (clock imp1) (runtimeState imp)
                  else runtimeState imp)" by blast
    then have "lastMessageTime (runtimeState imp1)
                 = (if attempt_succeeds opts (env i) imp m then clock imp1
                    else lastMessageTime (runtimeState imp))"
      "messageCount (runtimeState imp1)
                 = messageCount (runtimeState imp)
                   + (if attempt_succeeds opts (env i) imp m then 1 else 0)"
      by (simp_all add: updateRateLimit_def)
    with po show "lastMessageTime (runtimeState (fst (processOne opts (env i) imp res m)))
                 = (if attempt_succeeds opts (env i) imp m
                      then clock (fst (processOne opts (env i) imp res m))
                    else lastMessageTime (runtimeState imp))
             \<and> messageCount (runtimeState (fst (processOne opts (env i) imp res m)))
                 = messageCount (runtimeState imp)
                   + (if attempt_succeeds opts (env i) imp m then 1 else 0)"
      by simp
  qed
  have H: "tracking imp \<and> 0 \<le> clock imp \<and> \<not> isPaused imp \<longrightarrow>
               (\<exists>new. ledger (fst (processMessages opts env msgs imp)) = ledger imp @ new
                  \<and> map messageId new = map msgId msgs
                  \<and> paced (config imp) env 0 (clock imp) (lastMessageTime (runtimeState imp)) new
                  \<and> lastMessageTime (runtimeState (fst (processMessages opts env msgs imp)))
                      = lastSend (lastMessageTime (runtimeState imp)) new
                  \<and> messageCount (runtimeState (fst (processMessages opts env msgs imp)))
                      = messageCount (runtimeState imp) + countStatus Sent new)"
  proof
    assume "tracking imp \<and> 0 \<le> clock imp \<and> \<not> isPaused imp"
    then have t: "tracking imp" "0 \<le> clock imp" "\<not> isPaused imp" by simp_all
    from processLoop_paced [OF pl t assms(1,2) nn] obtain new2 where
      p: "appended imp imp' new2" "map messageId new2 = map msgId msgs"
        "paced (config imp) env 0 (clock imp) (lastMessageTime (runtimeState imp)) new2"
        "lastMessageTime (runtimeState imp') = lastSend (lastMessageTime (runtimeState imp)) new2"
        "messageCount (runtimeState imp') = messageCount (runtimeState imp) + countStatus Sent new2"
      by blast
    from p(1) have "ledger imp' = ledger imp @ new2" by (simp add: appended_def)
    with pm p(2-) show "\<exists>new. ledger (fst (processMessages opts env msgs imp)) = ledger imp @ new
                  \<and> map messageId new = map msgId msgs
                  \<and> paced (config imp) env 0 (clock imp) (lastMessageTime (runtimeState imp)) new
                  \<and> lastMessageTime (runtimeState (fst (processMessages opts env msgs imp)))
                      = lastSend (lastMessageTime (runtimeState imp)) new
                  \<and> messageCount (runtimeState (fst (processMessages opts env msgs imp)))
                      = messageCount (runtimeState imp) + countStatus Sent new"
      by (intro exI [of _ new2]) simp
  qed
  from A lo up B C D E F G H show ?thesis by (intro conjI)
qed

text \<open>A run over five jobs whose first send fails: the second entry follows the first
  after the random delay and the send alone, since no send has succeeded yet; each later
  one follows a \<open>sent\<close> entry after the full minimum delay, the random delay and the
  send.\<close>

theorem pacing_floor_witness:
  "0 \<le> sleepMin (config (importer_new 5))
   \<and> sleepMin (config (importer_new 5)) \<le> sleepMax (config (importer_new 5))
   \<and> rnd (connection_lost_first 0) = 0
   \<and> tracking (importer_new 5) \<and> 0 \<le> clock (importer_new 5) \<and> \<not> isPaused (importer_new 5)
   \<and> clock (waitForRateLimit (rnd (connection_lost_first 0)) (importer_new 5)) = 8000
   \<and> (\<exists>u. 0 \<le> u \<and> u < 1 \<and> getRandomSleepDuration (config (importer_new 5)) u = 10)
   \<and> getRandomSleepDuration (config (importer_new 5)) (7 / 8) = 10
   \<and> (\<exists>new. ledger (fst (processMessages opts_real connection_lost_first plan_five (importer_new 5)))
                = ledger (importer_new 5) @ new
          \<and> spaced_from 3000 5000 (map r_timestamp new)
          \<and> spaced_from 3000 5000 (map r_timestamp (filter (\<lambda>r. r_status r = Sent) new)))
   \<and> (\<exists>new. ledger (fst (processMessages opts_real connection_lost_first plan_five (importer_new 5)))
                = ledger (importer_new 5) @ new
          \<and> map messageId new = [''j1'', ''j2'', ''j3'', ''j4'', ''j5'']
          \<and> paced createDefault connection_lost_first 0 5000 0 new
          \<and> lastMessageTime (runtimeState (fst (processMessages opts_real connection_lost_first
                plan_five (importer_new 5))))
              = lastSend 0 new
          \<and> messageCount (runtimeState (fst (processMessages opts_real connection_lost_first
                plan_five (importer_new 5))))
              = countStatus Sent new)
   \<and> map (\<lambda>r. (r_status r, r_timestamp r))
        (ledger (fst (processMessages opts_real connection_lost_first plan_five (importer_new 5))))
     = [(Failed, 8005), (Sent, 11010), (Sent, 17015), (Sent, 23020), (Sent, 29025)]
   \<and> lastMessageTime (runtimeState (fst (processMessages opts_real connection_lost_first
         plan_five (importer_new 5))))
     = 29025"
proof -
  have h: "0 \<le> sleepMin (config (importer_new 5))"
    "sleepMin (config (importer_new 5)) \<le> sleepMax (config (importer_new 5))"
    "\<forall>k. 0 \<le> rnd (connection_lost_first k) \<and> rnd (connection_lost_first k) < 1"
    by (simp_all add: importer_new_def createDefault_def connection_lost_first_def)
  have t: "tracking (importer_new 5)" "0 \<le> clock (importer_new 5)" "\<not> isPaused (importer_new 5)"
    by (simp_all add: importer_new_def tracking_def tracker_new_def)
  have v: "sleepMin (config (importer_new 5)) * 1000 = 3000" "clock (importer_new 5) = 5000"
    "config (importer_new 5) = createDefault"
    "lastMessageTime (runtimeState (importer_new 5)) = 0"
    "messageCount (runtimeState (importer_new 5)) = 0"
    by (simp_all add: importer_new_def createDefault_def newRuntimeState_def)
  have r0: "rnd (connection_lost_first 0) = 0" by (simp add: connection_lost_first_def)
  have m5: "map msgId plan_five = [''j1'', ''j2'', ''j3'', ''j4'', ''j5'']"
    by (simp add: plan_five_def job_def)
  note inst = pacing_floor [OF h, of 0 opts_real _ _ plan_five]
  from inst [THEN conjunct1]
  have W: "clock (waitForRateLimit (rnd (connection_lost_first 0)) (importer_new 5)) = 8000"
    by (simp add: importer_new_def createDefault_def connection_lost_first_def newRuntimeState_def
        getRandomSleepDuration_def)
  note L = inst [THEN conjunct2, THEN conjunct2, THEN conjunct2, THEN conjunct2, THEN conjunct1,
      unfolded v(1,2)]
  from t have t': "tracking (importer_new 5) \<and> 0 \<le> clock (importer_new 5) \<and> \<not> isPaused (importer_new 5)"
    by simp
  have d10: "sleepMin (config (importer_new 5)) \<le> 10 \<and> 10 \<le> sleepMax (config (importer_new 5))"
    by (simp add: importer_new_def createDefault_def)
  note O = inst [THEN conjunct2, THEN conjunct2, THEN conjunct2, THEN conjunct2, THEN conjunct2,
      THEN conjunct1, THEN spec, of 10, THEN mp, OF d10]
  note P = inst [THEN conjunct2, THEN conjunct2, THEN conjunct2, THEN conjunct2, THEN conjunct2,
      THEN conjunct2, THEN conjunct2, THEN conjunct2, THEN conjunct2, THEN mp, OF t',
      unfolded v m5]
  from P have P': "\<exists>new. ledger (fst (processMessages opts_real connection_lost_first plan_five (importer_new 5)))
                = ledger (importer_new 5) @ new
          \<and> map messageId new = [''j1'', ''j2'', ''j3'', ''j4'', ''j5'']
          \<and> paced createDefault connection_lost_first 0 5000 0 new
          \<and> lastMessageTime (runtimeState (fst (processMessages opts_real connection_lost_first
                plan_five (importer_new 5))))
              = lastSend 0 new
          \<and> messageCount (runtimeState (fst (processMessages opts_real connection_lost_first
                plan_five (importer_new 5))))
              = countStatus Sent new"
    by simp
  have R: "map (\<lambda>r. (r_status r, r_timestamp r))
        (ledger (fst (processMessages opts_real connection_lost_first plan_five (importer_new 5))))
     = [(Failed, 8005), (Sent, 11010), (Sent, 17015), (Sent, 23020), (Sent, 29025)]"
    by (simp add: plan_five_def job_def opts_real_def connection_lost_first_def importer_new_def
        tracker_new_def ledger_def run_defs)
  have S: "lastMessageTime (runtimeState (fst (processMessages opts_real connection_lost_first
         plan_five (importer_new 5))))
     = 29025"
    by (simp add: plan_five_def job_def opts_real_def connection_lost_first_def importer_new_def
        tracker_new_def run_defs)
  have O': "getRandomSleepDuration (config (importer_new 5)) (7 / 8) = 10"
    by (simp add: importer_new_def createDefault_def getRandomSleepDuration_def)
  from h(1,2) r0 t W O O' L P' R S show ?thesis by (intro conjI)
qed


section \<open>The retry count of an entry\<close>

text \<open>
  C9. \<^verbatim>\<open>ProgressRecord.create\<close> sets \<open>retryCount\<close> to 1 for a \<open>failed\<close> entry and to 0
  for any other, from the status alone: an entry it returns has the status asked for and
  that count, and a \<open>failed\<close> one satisfies \<^verbatim>\<open>canRetry\<close>. The loop of the executor writes
  entries made by \<^verbatim>\<open>create\<close> only, so in every run, whatever the log already holds, each
  entry appended is \<open>sent\<close> with count 0 or \<open>failed\<close> with count 1 and retryable.
\<close>

theorem retry_count_constant:
  "(record_create now mid tid st err sid = Inr r \<longrightarrow>
      retryCount r = (if st = Failed then 1 else 0) \<and> r_status r = st
      \<and> (if st = Failed then canRetry r else retryCount r = 0))
   \<and> (\<exists>new. ledger (fst (processMessages opts env msgs imp)) = ledger imp @ new
          \<and> (\<forall>rec \<in> set new.
                retryCount rec = (if r_status rec = Failed then 1 else 0)
                \<and> (if r_status rec = Failed then canRetry rec else r_status rec = Sent)))"
proof (intro conjI impI)
  assume c: "record_create now mid tid st err sid = Inr r"
  from record_create_Inr [OF c] show "retryCount r = (if st = Failed then 1 else 0)" by simp
  from record_create_Inr [OF c] show "r_status r = st" by simp
  from record_create_Inr [OF c] show "if st = Failed then canRetry r else retryCount r = 0"
    by (simp add: canRetry_def)
next
  obtain imp' ms' r where pm: "processMessages opts env msgs imp = (imp', ms', r)"
    by (metis prod_cases3)
  from processMessages_loop [OF pm] obtain r0 where
    pl: "processLoop opts env 0 msgs imp
             \<lparr>res_status = RRunning, res_total = int (length msgs), res_processed = 0,
              res_successful = 0, res_failed = 0, res_skipped = 0, res_errors = []\<rparr>
           = (imp', ms', r0)"
    by blast
  from processLoop_effect [OF pl] obtain new where
    n: "appended imp imp' new"
      "\<forall>rec \<in> set new. messageId rec \<in> msgId ` set msgs
                 \<and> retryCount rec = (if r_status rec = Failed then 1 else 0)
                 \<and> (r_status rec = Sent \<or> r_status rec = Failed)
                 \<and> r_timestamp rec \<le> clock imp'"
    by blast
  from n(1) pm have l: "ledger (fst (processMessages opts env msgs imp)) = ledger imp @ new"
    by (simp add: appended_def)
  from n(2) have "\<forall>rec \<in> set new.
                retryCount rec = (if r_status rec = Failed then 1 else 0)
                \<and> (if r_status rec = Failed then canRetry rec else r_status rec = Sent)"
    by (auto simp: canRetry_def)
  with l show "\<exists>new. ledger (fst (processMessages opts env msgs imp)) = ledger imp @ new
          \<and> (\<forall>rec \<in> set new.
                retryCount rec = (if r_status rec = Failed then 1 else 0)
                \<and> (if r_status rec = Failed then canRetry rec else r_status rec = Sent))"
    by (intro exI [of _ new]) simp
qed

theorem retry_count_constant_witness:
  "record_create 30000 ''j3'' 1 Failed (Some ''Chat not found'') None
     = Inr (entry_failed 30000 ''j3'')
   \<and> retryCount (entry_failed 30000 ''j3'') = 1
   \<and> canRetry (entry_failed 30000 ''j3'')"
proof -
  have c: "record_create 30000 ''j3'' 1 Failed (Some ''Chat not found'') None
     = Inr (entry_failed 30000 ''j3'')"
    by (simp add: record_create_def record_fromData_def record_validate_def truthy_def
        entry_failed_def)
  from retry_count_constant [where now = 30000 and mid = "''j3''" and tid = 1 and st = Failed
      and err = "Some ''Chat not found''" and sid = None and r = "entry_failed 30000 ''j3''",
      THEN conjunct1, THEN mp, OF c] c
  show ?thesis by simp
qed

end
